theory Spec2Isabelle
  imports Complex_Main "HOL-Library.Sublist"
begin

section \<open>JavaScript strings\<close>

text \<open>
  A JavaScript string is a sequence of UTF-16 code units. It is modelled as a \<open>string\<close>
  (a \<open>char list\<close>), one \<open>char\<close> for each code unit, so \<open>length\<close> is the
  \<open>.length\<close> of the source. The functions below compare code units with ASCII
  characters only.
\<close>

definition newline :: char where
  "newline = CHR 0x0A"

definition dquote :: char where
  "dquote = CHR 0x22"

definition backslash :: char where
  "backslash = CHR 0x5C"

text \<open>\<open>s.startsWith(p)\<close>, \<open>s.endsWith(p)\<close>, \<open>s.includes(p)\<close>.\<close>

definition startsWith :: "string \<Rightarrow> string \<Rightarrow> bool" where
  "startsWith s p = (take (length p) s = p)"

definition endsWith :: "string \<Rightarrow> string \<Rightarrow> bool" where
  "endsWith s p = (length p \<le> length s \<and> drop (length s - length p) s = p)"

fun includes_str :: "string \<Rightarrow> string \<Rightarrow> bool" where
  "includes_str [] p = (p = [])"
| "includes_str (c # cs) p = (startsWith (c # cs) p \<or> includes_str cs p)"

text \<open>
  \<open>s.trim()\<close> removes white space and line terminators at both ends; among the code
  units below 256 these are tab, line feed, vertical tab, form feed, carriage return,
  space and the no-break space.
\<close>

definition isWhiteSpace :: "char \<Rightarrow> bool" where
  "isWhiteSpace c = (c \<in> set [CHR 0x09, CHR 0x0A, CHR 0x0B, CHR 0x0C, CHR 0x0D, CHR 0x20, CHR 0xA0])"

definition trim :: "string \<Rightarrow> string" where
  "trim s = rev (dropWhile isWhiteSpace (rev (dropWhile isWhiteSpace s)))"

text \<open>
  \<open>s.split('\n')\<close> never returns the empty array: the empty string gives one empty
  line. \<open>lines.join('\n')\<close> is its inverse on non-empty arrays.
\<close>

fun split_nl :: "string \<Rightarrow> string list" where
  "split_nl [] = [[]]"
| "split_nl (c # cs) =
     (if c = newline then [] # split_nl cs
      else (case split_nl cs of [] \<Rightarrow> [[c]] | l # ls \<Rightarrow> (c # l) # ls))"

fun join_nl :: "string list \<Rightarrow> string" where
  "join_nl [] = []"
| "join_nl [l] = l"
| "join_nl (l # m # ls) = l @ newline # join_nl (m # ls)"

text \<open>\<open>s.indexOf(c)\<close>, with \<open>None\<close> for the source's \<open>-1\<close>.\<close>

fun indexOf :: "string \<Rightarrow> char \<Rightarrow> nat option" where
  "indexOf [] c = None"
| "indexOf (x # xs) c = (if x = c then Some 0 else map_option Suc (indexOf xs c))"

text \<open>
  A template literal prints an integer in decimal, with a leading minus sign when it is
  negative (the plain decimal form is what JavaScript prints for integers below
  \<open>10\<^sup>2\<^sup>1\<close> in magnitude).
\<close>

definition digitChar :: "nat \<Rightarrow> char" where
  "digitChar d = char_of (48 + d)"

fun natToString :: "nat \<Rightarrow> string" where
  "natToString n = (if n < 10 then [digitChar n] else natToString (n div 10) @ [digitChar (n mod 10)])"

declare natToString.simps [simp del]

definition numberToString :: "int \<Rightarrow> string" where
  "numberToString i = (if i < 0 then CHR ''-'' # natToString (nat (- i)) else natToString (nat i))"

section \<open>Repair of truncated JSON (\<open>repairIncompleteJson\<close>)\<close>

text \<open>
  The scanner keeps the counters of the source: open brackets, open braces, whether it is
  inside a string literal, whether the previous character was a backslash, and the index
  of the last closing brace seen with no brace open and exactly one bracket open
  (\<open>-1\<close> when there is none).
\<close>

record scan_state =
  openBrackets :: int
  openBraces :: int
  inString :: bool
  escaped :: bool
  lastCompleteObjectIndex :: int

definition scanInit :: scan_state where
  "scanInit = \<lparr>openBrackets = 0, openBraces = 0, inString = False, escaped = False,
     lastCompleteObjectIndex = - 1\<rparr>"

definition scanChar :: "nat \<Rightarrow> char \<Rightarrow> scan_state \<Rightarrow> scan_state" where
  "scanChar i c st =
     (if escaped st then st\<lparr>escaped := False\<rparr>
      else if c = backslash then st\<lparr>escaped := True\<rparr>
      else if c = dquote then st\<lparr>inString := \<not> inString st\<rparr>
      else if \<not> inString st then
        (if c = CHR ''['' then st\<lparr>openBrackets := openBrackets st + 1\<rparr>
         else if c = CHR '']'' then st\<lparr>openBrackets := openBrackets st - 1\<rparr>
         else if c = CHR ''{'' then st\<lparr>openBraces := openBraces st + 1\<rparr>
         else if c = CHR ''}'' then
           (let st' = st\<lparr>openBraces := openBraces st - 1\<rparr>
            in if openBraces st' = 0 \<and> openBrackets st' = 1
               then st'\<lparr>lastCompleteObjectIndex := int i\<rparr> else st')
         else st)
      else st)"

fun scanFrom :: "nat \<Rightarrow> string \<Rightarrow> scan_state \<Rightarrow> scan_state" where
  "scanFrom i [] st = st"
| "scanFrom i (c # cs) st = scanFrom (Suc i) cs (scanChar i c st)"

definition scanJson :: "string \<Rightarrow> scan_state" where
  "scanJson s = scanFrom 0 s scanInit"

text \<open>
  The counters used for the closing characters are those of the scan of the whole
  string: the source does not scan again after cutting. A \<open>while (n > 0)\<close> loop that
  appends one character and decrements \<open>n\<close> appends \<open>nat n\<close> characters.
\<close>

definition repairIncompleteJson :: "string \<Rightarrow> string" where
  "repairIncompleteJson jsonString =
     (let repairedJson = trim jsonString;
          st = scanJson repairedJson;
          cut = (if (openBraces st > 0 \<or> openBrackets st > 1) \<and> lastCompleteObjectIndex st > - 1
                 then take (nat (lastCompleteObjectIndex st + 1)) repairedJson
                 else repairedJson)
      in cut @ replicate (nat (openBraces st)) (CHR ''}'')
             @ replicate (nat (openBrackets st)) (CHR '']''))"

section \<open>Diff segmentation (\<open>splitIntoHunks\<close>)\<close>

text \<open>
  A chunk is the anonymous object \<open>{content, additions, deletions}\<close> of the source.
\<close>

record hunk =
  content :: string
  hunk_additions :: nat
  hunk_deletions :: nat

text \<open>
  The first loop keeps the lines before the first line starting with \<open>@@\<close>, looking at
  no more than the first ten lines.
\<close>

definition captureHeaders :: "string list \<Rightarrow> string list" where
  "captureHeaders diffLines = takeWhile (\<lambda>l. \<not> startsWith l ''@@'') (take 10 diffLines)"

definition mkHunk :: "string list \<Rightarrow> string list \<Rightarrow> nat \<Rightarrow> nat \<Rightarrow> hunk" where
  "mkHunk headerLines currentHunk a d =
     \<lparr>content = join_nl (headerLines @ currentHunk), hunk_additions = a, hunk_deletions = d\<rparr>"

text \<open>
  The second loop runs over all lines (the header lines included), with the variables
  \<open>hunks\<close>, \<open>currentHunk\<close>, \<open>currentAdditions\<close> and \<open>currentDeletions\<close> as
  accumulators. It returns them as they are when the lines are used up.
\<close>

fun splitLoop ::
  "string list \<Rightarrow> hunk list \<Rightarrow> string list \<Rightarrow> nat \<Rightarrow> nat \<Rightarrow> string list
     \<Rightarrow> hunk list \<times> string list \<times> nat \<times> nat" where
  "splitLoop headerLines hunks currentHunk a d [] = (hunks, currentHunk, a, d)"
| "splitLoop headerLines hunks currentHunk a d (line # rest) =
     (if startsWith line ''@@'' then
        splitLoop headerLines
          (if currentHunk \<noteq> [] then hunks @ [mkHunk headerLines currentHunk a d] else hunks)
          [line] 0 0 rest
      else
        (let currentHunk' = currentHunk @ [line];
             a' = (if startsWith line ''+'' \<and> \<not> startsWith line ''+++'' then a + 1 else a);
             d' = (if startsWith line ''+'' \<and> \<not> startsWith line ''+++'' then d
                   else if startsWith line ''-'' \<and> \<not> startsWith line ''---'' then d + 1 else d)
         in if length currentHunk' > 100
            then splitLoop headerLines (hunks @ [mkHunk headerLines currentHunk' a' d']) [] 0 0 rest
            else splitLoop headerLines hunks currentHunk' a' d' rest))"

definition splitIntoHunks :: "string list \<Rightarrow> hunk list" where
  "splitIntoHunks diffLines =
     (let headerLines = captureHeaders diffLines
      in case splitLoop headerLines [] [] 0 0 diffLines of
           (hunks, currentHunk, a, d) \<Rightarrow>
             (let hunks' = (if currentHunk \<noteq> [] then hunks @ [mkHunk headerLines currentHunk a d]
                            else hunks)
              in if hunks' \<noteq> [] then hunks'
                 else [\<lparr>content = join_nl diffLines, hunk_additions = 0, hunk_deletions = 0\<rparr>]))"

text \<open>
  The hunk-portion of a chunk: the lines of its content after the shared header lines.
\<close>

definition hunkPortion :: "string list \<Rightarrow> hunk \<Rightarrow> string list" where
  "hunkPortion headerLines c = drop (length headerLines) (split_nl (content c))"

definition hunkPortions :: "string list \<Rightarrow> string list list" where
  "hunkPortions diffLines =
     map (hunkPortion (captureHeaders diffLines)) (splitIntoHunks diffLines)"

text \<open>
  The hunks of a unified diff, in the words of the specification: a hunk is a line
  starting with \<open>@@\<close> together with the lines that follow it up to the next such line.
  Lines before the first hunk header belong to no hunk.
\<close>

fun hunksFrom :: "string list \<Rightarrow> string list \<Rightarrow> string list list" where
  "hunksFrom cur [] = (if cur = [] then [] else [cur])"
| "hunksFrom cur (l # ls) =
     (if startsWith l ''@@'' then (if cur = [] then [] else [cur]) @ hunksFrom [l] ls
      else hunksFrom (cur @ [l]) ls)"

definition diffHunks :: "string list \<Rightarrow> string list list" where
  "diffHunks diffLines = hunksFrom [] (dropWhile (\<lambda>l. \<not> startsWith l ''@@'') diffLines)"

text \<open>
  The line groups that the second loop closes, without the counters and the header: what
  \<open>splitLoop\<close> followed by the final push produces, seen as lists of lines.
\<close>

fun pieces :: "string list \<Rightarrow> string list \<Rightarrow> string list list" where
  "pieces cur [] = (if cur = [] then [] else [cur])"
| "pieces cur (l # ls) =
     (if startsWith l ''@@'' then (if cur = [] then [] else [cur]) @ pieces [l] ls
      else if length (cur @ [l]) > 100 then (cur @ [l]) # pieces [] ls
      else pieces (cur @ [l]) ls)"

section \<open>Prompt construction (\<open>buildPrompt\<close>)\<close>

text \<open>
  A changed file as the repository client returns it. The source reads \<open>file.patch\<close>
  only through its truthiness or its length (\<open>file.patch?.length || 0\<close>), where an absent
  patch and the empty string behave alike, and \<open>buildPrompt\<close> is reached only with a
  patch; so \<open>patch\<close> is a string and the empty string also stands for an absent patch.
  \<open>file.additions || 0\<close> is \<open>additions\<close> for every number.
\<close>

record changed_file =
  filename :: string
  status :: string
  changes :: nat
  additions :: nat
  deletions :: nat
  patch :: string

definition calculateMaxDiffLength :: "changed_file \<Rightarrow> nat" where
  "calculateMaxDiffLength file =
     (let baseLength = 1500;
          extraLength = min (additions file * 10) 1000
      in baseLength + extraLength)"

definition truncationMarker :: string where
  "truncationMarker = ''... (content truncated for brevity)''"

text \<open>
  The loop over the lines of the patch, with \<open>truncatedLines\<close> and \<open>currentLength\<close> as
  accumulators; \<open>break\<close> ends the recursion.
\<close>

fun truncateLoop :: "nat \<Rightarrow> string list \<Rightarrow> nat \<Rightarrow> string list \<Rightarrow> string list" where
  "truncateLoop maxDiffLength truncatedLines currentLength [] = truncatedLines"
| "truncateLoop maxDiffLength truncatedLines currentLength (line # rest) =
     (if currentLength + length line > maxDiffLength
      then truncatedLines @ [truncationMarker]
      else truncateLoop maxDiffLength (truncatedLines @ [line]) (currentLength + length line + 1) rest)"

definition promptDiff :: "changed_file \<Rightarrow> string" where
  "promptDiff file =
     (let diff = patch file;
          maxDiffLength = calculateMaxDiffLength file
      in if length diff > maxDiffLength
         then join_nl (truncateLoop maxDiffLength [] 0 (split_nl diff))
         else diff)"

definition systemPrompt :: string where
  \<open>systemPrompt = join_nl
     [''Code security reviewer. Find critical bugs, security vulnerabilities, performance issues. Return ONLY valid JSON array.'',
      '''',
      ''Format: [{"path":"file.ts","line":1,"severity":"error|warning|info","message":"brief issue","suggestion":"concise fix"}]'',
      '''',
      ''Focus on: SQL injection, XSS, hardcoded secrets, command injection, path traversal, prototype pollution, insecure crypto.'',
      ''Rules: Only significant issues, prioritize security/errors over style, use + line numbers, return [] if clean.'']\<close>

definition buildPrompt :: "changed_file \<Rightarrow> string" where
  "buildPrompt file =
     (let userPrompt = join_nl
            [''File: '' @ filename file @ '' (+'' @ natToString (additions file) @ ''/-''
               @ natToString (deletions file) @ '')'',
             '''',
             promptDiff file,
             '''',
             ''JSON only:'']
      in systemPrompt @ [newline, newline] @ userPrompt)"

section \<open>Parsing the model's answer (\<open>parseGeminiResponse\<close>)\<close>

text \<open>
  The value that \<open>JSON.parse\<close> returns. A number is the rational value of the parsed
  double (the infinities, which a literal beyond the range of a double parses to, are
  left out); after \<open>JSON.parse\<close> an object has one value for each key, looked up here
  with \<open>map_of\<close>.
\<close>

datatype json =
  JNull
| JBool bool
| JNum rat
| JStr string
| JArr "json list"
| JObj "(string \<times> json) list"

datatype js_error = TypeError | SyntaxError | RequestError string

text \<open>
  Reading one of the properties \<open>path\<close>, \<open>message\<close>, \<open>line\<close>, \<open>severity\<close> of a
  parsed value: \<open>null\<close> has no properties and the access throws a TypeError; an object
  gives the value under the key, or \<open>undefined\<close> (\<open>None\<close>) without it; a boolean,
  number, string or array has no property of these names.
\<close>

fun getProp :: "json \<Rightarrow> string \<Rightarrow> js_error + json option" where
  "getProp JNull k = Inl TypeError"
| "getProp (JObj kvs) k = Inr (map_of kvs k)"
| "getProp v k = Inr None"

text \<open>Truthiness of a property value; \<open>JSON.parse\<close> never yields NaN.\<close>

fun truthy :: "json option \<Rightarrow> bool" where
  "truthy None = False"
| "truthy (Some JNull) = False"
| "truthy (Some (JBool b)) = b"
| "truthy (Some (JNum n)) = (n \<noteq> 0)"
| "truthy (Some (JStr s)) = (s \<noteq> [])"
| "truthy (Some (JArr xs)) = True"
| "truthy (Some (JObj kvs)) = True"

text \<open>\<open>typeof v !== 'number' || v <= 0\<close>\<close>

fun notPositiveNumber :: "json option \<Rightarrow> bool" where
  "notPositiveNumber (Some (JNum n)) = (n \<le> 0)"
| "notPositiveNumber v = True"

text \<open>
  The callback of \<open>comments.filter\<close>. The four property reads come first; they all
  succeed or, on \<open>null\<close>, the first one throws.
\<close>

definition validComment :: "json \<Rightarrow> js_error + bool" where
  "validComment comment =
     (case getProp comment ''path'' of Inl e \<Rightarrow> Inl e | Inr path \<Rightarrow>
      case getProp comment ''message'' of Inl e \<Rightarrow> Inl e | Inr message \<Rightarrow>
      case getProp comment ''line'' of Inl e \<Rightarrow> Inl e | Inr line \<Rightarrow>
      case getProp comment ''severity'' of Inl e \<Rightarrow> Inl e | Inr severity \<Rightarrow>
        Inr (if \<not> truthy path \<or> \<not> truthy message \<or> \<not> truthy line \<or> \<not> truthy severity then False
             else if severity \<notin> set [Some (JStr ''error''), Some (JStr ''warning''), Some (JStr ''info'')]
               then False
             else if notPositiveNumber line then False
             else True))"

text \<open>\<open>comments.filter(callback)\<close>: an exception in the callback ends the filter.\<close>

fun filterComments :: "json list \<Rightarrow> js_error + json list" where
  "filterComments [] = Inr []"
| "filterComments (c # cs) =
     (case validComment c of
        Inl e \<Rightarrow> Inl e
      | Inr keep \<Rightarrow>
          (case filterComments cs of
             Inl e \<Rightarrow> Inl e
           | Inr rest \<Rightarrow> Inr (if keep then c # rest else rest)))"

text \<open>
  \<open>response.match(/\[[\s\S]*\]/)\<close>: from the first \<open>[\<close> to the last \<open>]\<close> after it, when
  there is one.
\<close>

definition lastIndexOf :: "string \<Rightarrow> char \<Rightarrow> nat option" where
  "lastIndexOf s c = map_option (\<lambda>k. length s - 1 - k) (indexOf (rev s) c)"

definition matchJsonArray :: "string \<Rightarrow> string option" where
  "matchJsonArray response =
     (case indexOf response (CHR ''['') of
        None \<Rightarrow> None
      | Some i \<Rightarrow>
          (case lastIndexOf (drop i response) (CHR '']'') of
             None \<Rightarrow> None
           | Some j \<Rightarrow> Some (take (Suc j) (drop i response))))"

text \<open>
  \<open>JSON.parse\<close> is a parameter: \<open>parse s = None\<close> when it throws a SyntaxError. The
  inner \<open>try\<close> gives the parsed array, or fails when the text does not parse or is not an
  array.
\<close>

definition parseWhole :: "(string \<Rightarrow> json option) \<Rightarrow> string \<Rightarrow> json option" where
  "parseWhole parse response =
     (case parse (trim response) of
        Some (JArr xs) \<Rightarrow> Some (JArr xs)
      | _ \<Rightarrow> None)"

text \<open>
  The \<open>catch\<close> of the inner \<open>try\<close>: \<open>None\<close> is the source's \<open>return []\<close>, \<open>Some v\<close> the
  value assigned to \<open>jsonData\<close>.
\<close>

definition extractJson :: "(string \<Rightarrow> json option) \<Rightarrow> string \<Rightarrow> json option" where
  "extractJson parse response =
     (case matchJsonArray response of
        None \<Rightarrow>
          (case indexOf response (CHR ''['') of
             Some arrayStart \<Rightarrow> parse (repairIncompleteJson (drop arrayStart response))
           | None \<Rightarrow> None)
      | Some jsonMatch \<Rightarrow>
          (case parse jsonMatch of
             Some v \<Rightarrow> Some v
           | None \<Rightarrow> parse (repairIncompleteJson jsonMatch)))"

text \<open>
  The whole function; the file name is only logged and is left out. The outer \<open>catch\<close>
  turns an exception of the filter into the empty list.
\<close>

definition parseGeminiResponse :: "(string \<Rightarrow> json option) \<Rightarrow> string \<Rightarrow> json list" where
  "parseGeminiResponse parse response =
     (case (case parseWhole parse response of
              Some v \<Rightarrow> Some v
            | None \<Rightarrow> extractJson parse response) of
        None \<Rightarrow> []
      | Some (JArr comments) \<Rightarrow>
          (case filterComments comments of
             Inl e \<Rightarrow> []
           | Inr validComments \<Rightarrow> validComments)
      | Some v \<Rightarrow> [])"

text \<open>
  The validity of a candidate in the words of the specification: an object with a
  non-empty path, a non-empty message, a severity among \<open>error\<close>, \<open>warning\<close>, \<open>info\<close>,
  and an integer line of at least 1.
\<close>

definition isNonEmptyString :: "json option \<Rightarrow> bool" where
  "isNonEmptyString v = (case v of Some (JStr s) \<Rightarrow> s \<noteq> [] | _ \<Rightarrow> False)"

definition isIntegerFrom1 :: "json option \<Rightarrow> bool" where
  "isIntegerFrom1 v = (case v of Some (JNum n) \<Rightarrow> of_int \<lfloor>n\<rfloor> = n \<and> 1 \<le> n | _ \<Rightarrow> False)"

definition specValid :: "json \<Rightarrow> bool" where
  "specValid c =
     (case c of
        JObj kvs \<Rightarrow>
          isNonEmptyString (map_of kvs ''path'') \<and> isNonEmptyString (map_of kvs ''message'')
          \<and> map_of kvs ''severity'' \<in> set [Some (JStr ''error''), Some (JStr ''warning''), Some (JStr ''info'')]
          \<and> isIntegerFrom1 (map_of kvs ''line'')
      | _ \<Rightarrow> False)"

text \<open>
  What the validation of the source accepts: an object whose path and message are truthy
  (for a string: non-empty), whose severity is one of the three strings, and whose line
  is a number greater than 0.
\<close>

definition isPositiveNumber :: "json option \<Rightarrow> bool" where
  "isPositiveNumber v = (case v of Some (JNum n) \<Rightarrow> 0 < n | _ \<Rightarrow> False)"

definition acceptedComment :: "json \<Rightarrow> bool" where
  "acceptedComment c =
     (case c of
        JObj kvs \<Rightarrow>
          truthy (map_of kvs ''path'') \<and> truthy (map_of kvs ''message'')
          \<and> map_of kvs ''severity'' \<in> set [Some (JStr ''error''), Some (JStr ''warning''), Some (JStr ''info'')]
          \<and> isPositiveNumber (map_of kvs ''line'')
      | _ \<Rightarrow> False)"

section \<open>Deduplication (\<open>filterDuplicateComments\<close>)\<close>

text \<open>
  The interface \<open>ReviewComment\<close>. The line is a line number of the diff, an integer,
  which the template literal of the key prints in decimal.
\<close>

record ReviewComment =
  path :: string
  line :: int
  severity :: string
  message :: string
  suggestion :: "string option"

text \<open>The key \<open>`${comment.path}:${comment.line}`\<close>.\<close>

definition commentKey :: "ReviewComment \<Rightarrow> string" where
  "commentKey comment = path comment @ '':'' @ numberToString (line comment)"

definition filterDuplicateComments :: "ReviewComment list \<Rightarrow> string set \<Rightarrow> ReviewComment list" where
  "filterDuplicateComments comments existing =
     filter (\<lambda>comment. let key = commentKey comment in \<not> (key \<in> existing)) comments"

section \<open>The review of one pull request (\<open>reviewPullRequest\<close>)\<close>

text \<open>
  What the repository client answers during one call of \<open>reviewPullRequest\<close>: every
  awaited call either throws (\<open>Inl\<close>) or returns (\<open>Inr\<close>). \<open>getRepositoryOctokit\<close> returns a
  client (\<open>True\<close>) or \<open>null\<close> (\<open>False\<close>). \<open>reviewFile\<close> catches every exception of the model
  call and of the parser, so it is a function from the file to its comments.
\<close>

record pull_request =
  draft :: bool
  state :: string

record review =
  review_id :: int
  body :: "string option"

text \<open>A comment of an earlier review; \<open>line\<close> is \<open>null\<close> for an outdated comment.\<close>

record posted_comment =
  posted_path :: string
  posted_line :: "int option"

text \<open>The argument of \<open>pulls.createReview\<close>.\<close>

record review_comment =
  rc_path :: string
  rc_line :: int
  rc_body :: string

record review_request =
  rq_body :: string
  rq_event :: string
  rq_comments :: "review_comment list"

record github =
  getRepositoryOctokit :: "js_error + bool"
  pulls_get :: "js_error + pull_request"
  pulls_listFiles :: "js_error + changed_file list"
  pulls_listReviews :: "js_error + review list"
  pulls_listCommentsForReview :: "int \<Rightarrow> js_error + posted_comment list"
  reviewFile :: "changed_file \<Rightarrow> ReviewComment list"
  pulls_createReview :: "review_request \<Rightarrow> js_error + unit"

record config =
  maxFiles :: nat
  maxLinesPerFile :: nat

text \<open>
  The texts of the comments are built by \<open>formatCommentBody\<close> and
  \<open>buildSummaryComment\<close>; they are parameters here.
\<close>

record texts =
  formatCommentBody :: "ReviewComment \<Rightarrow> string"
  buildSummaryComment :: "nat \<Rightarrow> nat \<Rightarrow> nat \<Rightarrow> string"

text \<open>
  \<open>s.toLowerCase()\<close> on the code units below 256: the capitals \<open>A\<close> to \<open>Z\<close> and
  U+00C0 to U+00DE, without the multiplication sign U+00D7, move up by 32.
\<close>

definition toLowerCase :: "string \<Rightarrow> string" where
  "toLowerCase s =
     map (\<lambda>c. let u = (of_char c :: nat)
              in if (65 \<le> u \<and> u \<le> 90) \<or> (192 \<le> u \<and> u \<le> 222 \<and> u \<noteq> 215)
                 then char_of (u + 32) else c) s"

definition nonReviewableExtensions :: "string list" where
  "nonReviewableExtensions =
     [''.min.js'', ''.map'', ''.lock'', ''.svg'', ''.png'', ''.jpg'', ''.jpeg'', ''.gif'',
      ''.pdf'', ''.zip'', ''.tar'', ''.gz'', ''.exe'', ''.dll'', ''.so'', ''.dylib'']"

definition isReviewableFile :: "config \<Rightarrow> changed_file \<Rightarrow> bool" where
  "isReviewableFile cfg file =
     (if status file = ''removed'' then False
      else if changes file > maxLinesPerFile cfg then False
      else if list_ex (\<lambda>ext. endsWith (toLowerCase (filename file)) ext) nonReviewableExtensions
        then False
      else True)"

text \<open>
  The attribution markers. The robot emoji U+1F916 lies outside the 8-bit characters; it
  is written as the four bytes it has in the source file. Only \<open>includes\<close> reads it.
\<close>

definition robot :: string where
  "robot = [CHR 0xF0, CHR 0x9F, CHR 0xA4, CHR 0x96]"

definition isAttributed :: "review \<Rightarrow> bool" where
  "isAttributed r =
     (case body r of
        None \<Rightarrow> False
      | Some b \<Rightarrow> includes_str b (robot @ '' AI CODE REVIEW '' @ robot)
                  \<or> includes_str b ''Generated by Gemini AI'')"

definition addCommentKeys :: "posted_comment list \<Rightarrow> string set \<Rightarrow> string set" where
  "addCommentKeys comments commentKeys =
     fold (\<lambda>comment keys.
             case posted_line comment of
               Some l \<Rightarrow> (if posted_path comment \<noteq> [] \<and> l \<noteq> 0
                          then insert (posted_path comment @ '':'' @ numberToString l) keys
                          else keys)
             | None \<Rightarrow> keys)
          comments commentKeys"

text \<open>The body of the \<open>try\<close> of \<open>getExistingComments\<close>, after \<open>listReviews\<close> returned.\<close>

fun collectCommentKeys ::
  "(int \<Rightarrow> js_error + posted_comment list) \<Rightarrow> review list \<Rightarrow> string set \<Rightarrow> js_error + string set" where
  "collectCommentKeys listComments [] commentKeys = Inr commentKeys"
| "collectCommentKeys listComments (r # reviews) commentKeys =
     (if isAttributed r then
        (case listComments (review_id r) of
           Inl e \<Rightarrow> Inl e
         | Inr comments \<Rightarrow> collectCommentKeys listComments reviews (addCommentKeys comments commentKeys))
      else collectCommentKeys listComments reviews commentKeys)"

definition getExistingComments :: "github \<Rightarrow> string set" where
  "getExistingComments gh =
     (case pulls_listReviews gh of
        Inl e \<Rightarrow> {}
      | Inr reviews \<Rightarrow>
          (case collectCommentKeys (pulls_listCommentsForReview gh) reviews {} of
             Inl e \<Rightarrow> {}
           | Inr commentKeys \<Rightarrow> commentKeys))"

text \<open>
  A call returns its result together with the requests it sent to \<open>pulls.createReview\<close>,
  in order.
\<close>

definition postReviewComments ::
  "texts \<Rightarrow> github \<Rightarrow> ReviewComment list \<Rightarrow> (js_error + unit) \<times> review_request list" where
  "postReviewComments tx gh comments =
     (if comments = [] then (Inr (), [])
      else
        (let errorCount = length (filter (\<lambda>c. severity c = ''error'') comments);
             warningCount = length (filter (\<lambda>c. severity c = ''warning'') comments);
             infoCount = length (filter (\<lambda>c. severity c = ''info'') comments);
             reviewComments = map (\<lambda>comment.
                \<lparr>rc_path = path comment, rc_line = line comment,
                 rc_body = formatCommentBody tx comment\<rparr>) comments;
             reviewState = ''COMMENT'';
             summaryBody = buildSummaryComment tx errorCount warningCount infoCount;
             request = \<lparr>rq_body = summaryBody, rq_event = reviewState, rq_comments = reviewComments\<rparr>
         in (pulls_createReview gh request, [request])))"

text \<open>
  \<open>reviewPullRequest\<close>: the \<open>catch\<close> logs and throws again, so an exception of an awaited
  call is the result. Every \<open>return\<close> of the source is an \<open>Inr ()\<close>.
\<close>

definition collectComments :: "github \<Rightarrow> changed_file list \<Rightarrow> ReviewComment list" where
  "collectComments gh reviewableFiles =
     concat (map (\<lambda>file. if patch file \<noteq> [] then reviewFile gh file else []) reviewableFiles)"

definition reviewPullRequest ::
  "texts \<Rightarrow> config \<Rightarrow> github \<Rightarrow> (js_error + unit) \<times> review_request list" where
  "reviewPullRequest tx cfg gh =
     (case getRepositoryOctokit gh of
        Inl e \<Rightarrow> (Inl e, [])
      | Inr False \<Rightarrow> (Inr (), [])
      | Inr True \<Rightarrow>
     (case pulls_get gh of
        Inl e \<Rightarrow> (Inl e, [])
      | Inr pullRequest \<Rightarrow>
     if draft pullRequest then (Inr (), [])
     else if state pullRequest \<noteq> ''open'' then (Inr (), [])
     else
     (case pulls_listFiles gh of
        Inl e \<Rightarrow> (Inl e, [])
      | Inr files \<Rightarrow>
     if length files = 0 then (Inr (), [])
     else
       (let reviewableFiles = take (maxFiles cfg) (filter (isReviewableFile cfg) files)
        in if length reviewableFiles = 0 then (Inr (), [])
           else
             (let existingComments = getExistingComments gh;
                  allComments = collectComments gh reviewableFiles;
                  newComments = filterDuplicateComments allComments existingComments
              in if length newComments = 0 then (Inr (), [])
                 else postReviewComments tx gh newComments)))))"

section \<open>The two triggers and their records of reviewed commits\<close>

text \<open>
  Both servers keep a \<open>Map\<close> from \<open>`${owner}/${repo}#${number}`\<close> to a record holding the
  head commit. The polling server stores the pull request's \<open>updated_at\<close>, the webhook
  server the time of the review.
\<close>

definition prKey :: "string \<Rightarrow> string \<Rightarrow> int \<Rightarrow> string" where
  "prKey owner repo number = owner @ ''/'' @ repo @ ''#'' @ numberToString number"

record ProcessedPR =
  record_id :: string
  updated_at :: string
  head_sha :: string

text \<open>An entry of \<open>pulls.list\<close>.\<close>

record listed_pr =
  pr_number :: int
  pr_id :: int
  pr_updated_at :: string
  pr_head_sha :: string

text \<open>The test \<open>isNew || hasNewCommits\<close> of \<open>scanRepository\<close>.\<close>

definition pollShouldReview :: "(string \<rightharpoonup> ProcessedPR) \<Rightarrow> string \<Rightarrow> string \<Rightarrow> listed_pr \<Rightarrow> bool" where
  "pollShouldReview processedPRs owner repo pr =
     (let processedPR = processedPRs (prKey owner repo (pr_number pr));
          isNew = (processedPR = None);
          hasNewCommits = (case processedPR of
                             None \<Rightarrow> False
                           | Some p \<Rightarrow> pr_head_sha pr \<noteq> head_sha p)
      in isNew \<or> hasNewCommits)"

text \<open>
  The statement \<open>this.processedPRs.set(prKey, {id, updated_at, head_sha})\<close> that follows
  the review.
\<close>

definition pollMarkReviewed ::
  "(string \<rightharpoonup> ProcessedPR) \<Rightarrow> string \<Rightarrow> string \<Rightarrow> listed_pr \<Rightarrow> (string \<rightharpoonup> ProcessedPR)" where
  "pollMarkReviewed processedPRs owner repo pr =
     processedPRs(prKey owner repo (pr_number pr) \<mapsto>
       \<lparr>record_id = numberToString (pr_id pr), updated_at = pr_updated_at pr,
        head_sha = pr_head_sha pr\<rparr>)"

text \<open>
  The body of the loop over the open pull requests: the new map and the review requests
  sent. \<open>gh\<close> is what the repository client answers for this pull request. The map is
  written after \<open>await reviewPullRequest\<close> returned, and not when it threw.
\<close>

definition scanPR ::
  "texts \<Rightarrow> config \<Rightarrow> github \<Rightarrow> string \<Rightarrow> string \<Rightarrow> (string \<rightharpoonup> ProcessedPR) \<Rightarrow> listed_pr
     \<Rightarrow> (string \<rightharpoonup> ProcessedPR) \<times> review_request list" where
  "scanPR tx cfg gh owner repo processedPRs pr =
     (if pollShouldReview processedPRs owner repo pr then
        (case reviewPullRequest tx cfg gh of
           (Inr u, sent) \<Rightarrow> (pollMarkReviewed processedPRs owner repo pr, sent)
         | (Inl e, sent) \<Rightarrow> (processedPRs, sent))
      else (processedPRs, []))"

text \<open>The webhook server.\<close>

record WebhookProcessedPR =
  w_id :: string
  w_head_sha :: string
  reviewed_at :: string

record webhook_pr =
  wp_number :: int
  wp_head_sha :: string

record webhook_payload =
  action :: string
  pull_request :: "webhook_pr option"
  repository_owner_login :: string
  repository_name :: string

text \<open>
  The test of the \<open>/webhook\<close> route, negated: the route answers "already reviewed" when
  \<open>processedPR && processedPR.head_sha === headSha\<close>, and starts the review otherwise.
\<close>

definition webhookShouldReview ::
  "(string \<rightharpoonup> WebhookProcessedPR) \<Rightarrow> string \<Rightarrow> string \<Rightarrow> int \<Rightarrow> string \<Rightarrow> bool" where
  "webhookShouldReview processedPRs owner repo prNumber headSha =
     (let processedPR = processedPRs (prKey owner repo prNumber)
      in \<not> (case processedPR of None \<Rightarrow> False | Some p \<Rightarrow> w_head_sha p = headSha))"

text \<open>
  The statement \<open>this.processedPRs.set(prKey, {id, head_sha, reviewed_at})\<close> of
  \<open>processPRReview\<close>; \<open>now\<close> is \<open>new Date().toISOString()\<close>.
\<close>

definition webhookMarkReviewed ::
  "string \<Rightarrow> (string \<rightharpoonup> WebhookProcessedPR) \<Rightarrow> string \<Rightarrow> string \<Rightarrow> int \<Rightarrow> string
     \<Rightarrow> (string \<rightharpoonup> WebhookProcessedPR)" where
  "webhookMarkReviewed now processedPRs owner repo prNumber headSha =
     processedPRs(prKey owner repo prNumber \<mapsto>
       \<lparr>w_id = owner @ ''/'' @ repo @ ''/'' @ numberToString prNumber, w_head_sha = headSha,
        reviewed_at = now\<rparr>)"

text \<open>\<open>processPRReview\<close>.\<close>

definition processPRReview ::
  "texts \<Rightarrow> config \<Rightarrow> github \<Rightarrow> string \<Rightarrow> (string \<rightharpoonup> WebhookProcessedPR) \<Rightarrow> string \<Rightarrow> string \<Rightarrow> int
     \<Rightarrow> string \<Rightarrow> (string \<rightharpoonup> WebhookProcessedPR) \<times> review_request list" where
  "processPRReview tx cfg gh now processedPRs owner repo prNumber headSha =
     (case reviewPullRequest tx cfg gh of
        (Inr u, sent) \<Rightarrow>
          (webhookMarkReviewed now processedPRs owner repo prNumber headSha, sent)
      | (Inl e, sent) \<Rightarrow> (processedPRs, sent))"

text \<open>
  The \<open>/webhook\<close> route after the signature check, followed by the review it starts.
\<close>

definition webhookRoute ::
  "texts \<Rightarrow> config \<Rightarrow> github \<Rightarrow> string \<Rightarrow> (string \<rightharpoonup> WebhookProcessedPR) \<Rightarrow> webhook_payload
     \<Rightarrow> (string \<rightharpoonup> WebhookProcessedPR) \<times> review_request list" where
  "webhookRoute tx cfg gh now processedPRs payload =
     (case pull_request payload of
        None \<Rightarrow> (processedPRs, [])
      | Some pr \<Rightarrow>
          if action payload \<notin> set [''opened'', ''synchronize'', ''reopened''] then (processedPRs, [])
          else
            (let owner = repository_owner_login payload;
                 repo = repository_name payload;
                 prNumber = wp_number pr;
                 headSha = wp_head_sha pr
             in if webhookShouldReview processedPRs owner repo prNumber headSha
                then processPRReview tx cfg gh now processedPRs owner repo prNumber headSha
                else (processedPRs, [])))"

text \<open>
  \<open>cleanupOldPRs\<close> of the polling server, run every hour: it deletes every record with
  \<open>new Date(pr.updated_at) < cutoffDate\<close>. Reading the stored string as a date is a
  parameter: \<open>dateOf s\<close> is the time value in milliseconds, or \<open>None\<close> for an invalid date,
  for which the comparison is false. \<open>cutoff\<close> is the time value of \<open>cutoffDate\<close>, the
  date seven days before the sweep.
\<close>

definition cleanupOldPRs ::
  "(string \<Rightarrow> int option) \<Rightarrow> int \<Rightarrow> (string \<rightharpoonup> ProcessedPR) \<Rightarrow> (string \<rightharpoonup> ProcessedPR)" where
  "cleanupOldPRs dateOf cutoff processedPRs =
     (\<lambda>key. case processedPRs key of
               None \<Rightarrow> None
             | Some pr \<Rightarrow>
                 (case dateOf (updated_at pr) of
                    Some t \<Rightarrow> if t < cutoff then None else Some pr
                  | None \<Rightarrow> Some pr))"

section \<open>Example inputs\<close>

text \<open>
  A pull request with one changed file for which the model reports one finding at
  \<open>a.ts:10\<close>; the repository client answers every call. In \<open>readyWorld\<close> the pull
  request is open and not a draft; \<open>draftWorld\<close> differs in the draft flag only.
\<close>

definition exampleTexts :: texts where
  "exampleTexts = \<lparr>formatCommentBody = (\<lambda>c. message c), buildSummaryComment = (\<lambda>e w i. ''summary'')\<rparr>"

definition exampleConfig :: config where
  "exampleConfig = \<lparr>maxFiles = 10, maxLinesPerFile = 500\<rparr>"

definition exampleFile :: changed_file where
  "exampleFile = \<lparr>filename = ''a.ts'', status = ''modified'', changes = 2, additions = 1,
     deletions = 1, patch = ''@@ -10 +10 @@''\<rparr>"

definition exampleComment :: ReviewComment where
  "exampleComment = \<lparr>path = ''a.ts'', line = 10, severity = ''error'', message = ''x'',
     suggestion = None\<rparr>"

definition readyWorld :: github where
  "readyWorld =
     \<lparr>getRepositoryOctokit = Inr True,
      pulls_get = Inr \<lparr>draft = False, state = ''open''\<rparr>,
      pulls_listFiles = Inr [exampleFile],
      pulls_listReviews = Inr [],
      pulls_listCommentsForReview = (\<lambda>i. Inr []),
      reviewFile = (\<lambda>f. [exampleComment]),
      pulls_createReview = (\<lambda>r. Inr ())\<rparr>"

definition draftWorld :: github where
  "draftWorld = readyWorld\<lparr>pulls_get := Inr \<lparr>draft = True, state = ''open''\<rparr>\<rparr>"

text \<open>
  The same pull request with an earlier review of this system that already commented on
  \<open>a.ts:10\<close>, and the world in which listing the reviews fails.
\<close>

definition reviewedWorld :: github where
  "reviewedWorld =
     readyWorld\<lparr>pulls_listReviews := Inr [\<lparr>review_id = 1, body = Some ''Generated by Gemini AI''\<rparr>],
                pulls_listCommentsForReview :=
                  (\<lambda>i. Inr [\<lparr>posted_path = ''a.ts'', posted_line = Some 10\<rparr>])\<rparr>"

definition failingWorld :: github where
  "failingWorld = reviewedWorld\<lparr>pulls_listReviews := Inl (RequestError ''listReviews'')\<rparr>"

definition examplePR :: listed_pr where
  "examplePR = \<lparr>pr_number = 7, pr_id = 1007, pr_updated_at = ''2024-01-01T00:00:00Z'',
     pr_head_sha = ''sha1''\<rparr>"

definition exampleRequest :: review_request where
  "exampleRequest = \<lparr>rq_body = ''summary'', rq_event = ''COMMENT'',
     rq_comments = [\<lparr>rc_path = ''a.ts'', rc_line = 10, rc_body = ''x''\<rparr>]\<rparr>"

text \<open>
  The date of the example pull request's \<open>updated_at\<close> as a time value, and the cutoff of
  a sweep that runs eight days after that date.
\<close>

definition exampleDateOf :: "string \<Rightarrow> int option" where
  "exampleDateOf s = (if s = ''2024-01-01T00:00:00Z'' then Some 1704067200000 else None)"

definition exampleCutoff :: int where
  "exampleCutoff = 1704153600000"

text \<open>The webhook delivery for the example pull request at the same head commit.\<close>

definition examplePayload :: webhook_payload where
  "examplePayload = \<lparr>action = ''opened'',
     pull_request = Some \<lparr>wp_number = 7, wp_head_sha = ''sha1''\<rparr>,
     repository_owner_login = ''o'', repository_name = ''r''\<rparr>"

definition exampleWebhookRecord :: WebhookProcessedPR where
  "exampleWebhookRecord = \<lparr>w_id = ''o/r/7'', w_head_sha = ''sha1'',
     reviewed_at = ''2024-01-02T00:00:00Z''\<rparr>"

section \<open>Helpers for stating the properties of the parser\<close>

text \<open>
  The strings that \<open>parseGeminiResponse\<close> hands to \<open>JSON.parse\<close>, at most: the trimmed
  response; the match of the array pattern and its repair; without a match, the repair of
  the response from its first \<open>[\<close>.
\<close>

definition parseCandidates :: "string \<Rightarrow> string list" where
  "parseCandidates response =
     trim response #
     (case matchJsonArray response of
        Some jsonMatch \<Rightarrow> [jsonMatch, repairIncompleteJson jsonMatch]
      | None \<Rightarrow>
          (case indexOf response (CHR ''['') of
             Some arrayStart \<Rightarrow> [repairIncompleteJson (drop arrayStart response)]
           | None \<Rightarrow> []))"

text \<open>A candidate comment whose line is \<open>1.5\<close>, and a well-formed one.\<close>

definition fractionalLineComment :: json where
  "fractionalLineComment =
     JObj [(''path'', JStr ''a.ts''), (''line'', JNum (3 / 2)), (''severity'', JStr ''error''),
           (''message'', JStr ''m'')]"

definition wellFormedComment :: json where
  "wellFormedComment =
     JObj [(''path'', JStr ''a.ts''), (''line'', JNum 3), (''severity'', JStr ''warning''),
           (''message'', JStr ''m'')]"

text \<open>
  \<open>JSON.parse\<close> on the strings of the examples below: the text of the array holding the
  well-formed comment, the text of the array holding the comment with line \<open>1.5\<close>, and
  the text of an object that holds the first array under the key \<open>comments\<close> parse to
  these values; the other strings of the examples are no JSON.
\<close>

definition exampleArrayText :: string where
  \<open>exampleArrayText = ''[{"path":"a.ts","line":3,"severity":"warning","message":"m"}]''\<close>

definition fractionalArrayText :: string where
  \<open>fractionalArrayText = ''[{"path":"a.ts","line":1.5,"severity":"error","message":"m"}]''\<close>

definition wrappedArrayText :: string where
  \<open>wrappedArrayText = ''{"comments":'' @ exampleArrayText @ ''}''\<close>

definition exampleParse :: "string \<Rightarrow> json option" where
  "exampleParse s =
     (if s = exampleArrayText then Some (JArr [wellFormedComment])
      else if s = fractionalArrayText then Some (JArr [fractionalLineComment])
      else if s = wrappedArrayText then Some (JObj [(''comments'', JArr [wellFormedComment])])
      else None)"

text \<open>
  A file without additions (budget 1500) whose patch has a first line of exactly 1500
  characters and a second line.
\<close>

definition longLineFile :: changed_file where
  "longLineFile = \<lparr>filename = ''a.ts'', status = ''modified'', changes = 0, additions = 0,
     deletions = 0, patch = replicate 1500 (CHR ''a'') @ [newline, CHR ''b'']\<rparr>"

text \<open>A diff of one hunk: the hunk header and 101 added lines.\<close>

definition bigHunkLines :: "string list" where
  "bigHunkLines = ''@@ -1,0 +1,101 @@'' # replicate 101 ''+x''"

definition bigHunkPatch :: string where
  "bigHunkPatch = join_nl bigHunkLines"

text \<open>A diff of two small hunks.\<close>

definition twoHunkPatch :: string where
  "twoHunkPatch = join_nl [''@@ -1 +1 @@'', ''-a'', ''+b'', ''@@ -9 +9 @@'', ''+c'']"

section \<open>Properties of the JSON repair\<close>

text \<open>
  C1. Claim: applied to an array of \<open>k\<close> complete object elements followed by a partial
  element, the repair yields the array of the first \<open>k\<close> elements, closing exactly what
  is open after the cut. The source cuts at the last complete element but then appends the
  closing characters counted before the cut: on the input
  \<open>[{"a":1},{"b":\<close> (one complete element, one partial) it returns \<open>[{"a":1}}]\<close>,
  not \<open>[{"a":1}]\<close>; in the result one more brace is closed than was opened.
\<close>

theorem repairIncompleteJson_partial_object:
  \<open>repairIncompleteJson ''[{"a":1},{"b":'' = ''[{"a":1}}]''
   \<and> repairIncompleteJson ''[{"a":1},{"b":'' \<noteq> ''[{"a":1}]''
   \<and> openBraces (scanJson (repairIncompleteJson ''[{"a":1},{"b":'')) = - 1\<close>
  by code_simp

section \<open>Properties of the deduplication\<close>

text \<open>
  C7. The deduplicator returns exactly the comments whose \<open>path:line\<close> key is not in the
  set of existing keys, in their order; the key does not depend on the message, so a
  comment at an existing key is dropped whatever its message.
\<close>

theorem filterDuplicateComments_set_difference:
  "filterDuplicateComments comments existing = filter (\<lambda>c. commentKey c \<notin> existing) comments
   \<and> subseq (filterDuplicateComments comments existing) comments
   \<and> commentKey ((c::ReviewComment)\<lparr>message := m\<rparr>) = commentKey c
   \<and> (commentKey c \<in> existing \<longrightarrow> filterDuplicateComments [c\<lparr>message := m\<rparr>] existing = [])"
  by (simp add: filterDuplicateComments_def commentKey_def)

theorem filterDuplicateComments_set_difference_witness:
  "filterDuplicateComments
     [\<lparr>path = ''a.ts'', line = 10, severity = ''error'', message = ''old'', suggestion = None\<rparr>,
      \<lparr>path = ''a.ts'', line = 11, severity = ''info'', message = ''x'', suggestion = None\<rparr>]
     {''a.ts:10''}
   = [\<lparr>path = ''a.ts'', line = 11, severity = ''info'', message = ''x'', suggestion = None\<rparr>]
   \<and> commentKey \<lparr>path = ''a.ts'', line = 10, severity = ''error'', message = ''old'', suggestion = None\<rparr>
       \<in> {''a.ts:10''}
   \<and> filterDuplicateComments
       [\<lparr>path = ''a.ts'', line = 10, severity = ''error'', message = ''new'', suggestion = None\<rparr>]
       {''a.ts:10''} = []"
proof -
  have k10: "numberToString 10 = ''10''" and k11: "numberToString 11 = ''11''"
    by code_simp+
  have key: "commentKey \<lparr>path = ''a.ts'', line = 10, severity = ''error'', message = ''old'', suggestion = None\<rparr>
       \<in> {''a.ts:10''}"
    by (simp add: commentKey_def k10)
  from filterDuplicateComments_set_difference
    [where comments = "[\<lparr>path = ''a.ts'', line = 10, severity = ''error'', message = ''old'', suggestion = None\<rparr>,
      \<lparr>path = ''a.ts'', line = 11, severity = ''info'', message = ''x'', suggestion = None\<rparr>]"
     and existing = "{''a.ts:10''}"
     and c = "\<lparr>path = ''a.ts'', line = 10, severity = ''error'', message = ''old'', suggestion = None\<rparr>"
     and m = "''new''"]
  show ?thesis using key by (simp add: commentKey_def k10 k11)
qed

section \<open>Properties of the records of reviewed commits\<close>



section \<open>Properties of the review of one pull request\<close>

lemma postReviewComments_event:
  "rq \<in> set (snd (postReviewComments tx gh comments)) \<Longrightarrow> rq_event rq = ''COMMENT''"
  by (auto simp: postReviewComments_def Let_def split: if_splits)

lemma reviewPullRequest_event:
  "rq \<in> set (snd (reviewPullRequest tx cfg gh)) \<Longrightarrow> rq_event rq = ''COMMENT''"
  unfolding reviewPullRequest_def Let_def
  by (auto split: sum.splits bool.splits if_splits dest: postReviewComments_event)

lemma scanPR_event:
  "rq \<in> set (snd (scanPR tx cfg gh owner repo m pr)) \<Longrightarrow> rq_event rq = ''COMMENT''"
  using reviewPullRequest_event [of rq tx cfg gh] unfolding scanPR_def
  by (cases "reviewPullRequest tx cfg gh") (auto split: if_splits sum.splits)

lemma processPRReview_event:
  "rq \<in> set (snd (processPRReview tx cfg gh now w owner repo n sha)) \<Longrightarrow> rq_event rq = ''COMMENT''"
  using reviewPullRequest_event [of rq tx cfg gh] unfolding processPRReview_def
  by (cases "reviewPullRequest tx cfg gh") (auto split: sum.splits)

lemma webhookRoute_event:
  "rq \<in> set (snd (webhookRoute tx cfg gh now w payload)) \<Longrightarrow> rq_event rq = ''COMMENT''"
  unfolding webhookRoute_def Let_def
  by (auto split: option.splits if_splits dest: processPRReview_event)

text \<open>
  C8. Every request that \<open>postReviewComments\<close> sends to \<open>pulls.createReview\<close> has the
  event \<open>COMMENT\<close>; so has every request sent by \<open>reviewPullRequest\<close>, by a step of the
  polling scan and by the webhook route, which send no other review request.
\<close>

theorem review_event_always_comment:
  "(\<forall>rq \<in> set (snd (postReviewComments tx gh comments)). rq_event rq = ''COMMENT'')
   \<and> (\<forall>rq \<in> set (snd (reviewPullRequest tx cfg gh)). rq_event rq = ''COMMENT'')
   \<and> (\<forall>rq \<in> set (snd (scanPR tx cfg gh owner repo m pr)). rq_event rq = ''COMMENT'')
   \<and> (\<forall>rq \<in> set (snd (processPRReview tx cfg gh now w owner repo n sha)). rq_event rq = ''COMMENT'')
   \<and> (\<forall>rq \<in> set (snd (webhookRoute tx cfg gh now w payload)). rq_event rq = ''COMMENT'')"
  by (intro conjI ballI)
     (erule postReviewComments_event reviewPullRequest_event scanPR_event processPRReview_event
        webhookRoute_event)+

theorem review_event_always_comment_witness:
  "exampleRequest \<in> set (snd (reviewPullRequest exampleTexts exampleConfig readyWorld))
   \<and> rq_event exampleRequest = ''COMMENT''"
proof -
  have sent: "reviewPullRequest exampleTexts exampleConfig readyWorld = (Inr (), [exampleRequest])"
    by code_simp
  then have mem: "exampleRequest \<in> set (snd (reviewPullRequest exampleTexts exampleConfig readyWorld))"
    by simp
  with review_event_always_comment [where tx = exampleTexts and cfg = exampleConfig and gh = readyWorld]
  have "rq_event exampleRequest = ''COMMENT''"
    by blast
  with mem show ?thesis by simp
qed

lemma reviewPullRequest_skips_draft_or_closed:
  "getRepositoryOctokit gh = Inr True \<Longrightarrow> pulls_get gh = Inr p \<Longrightarrow> draft p \<or> state p \<noteq> ''open''
   \<Longrightarrow> reviewPullRequest tx cfg gh = (Inr (), [])"
  by (auto simp: reviewPullRequest_def)

lemma reviewPullRequest_skips_no_reviewable_files:
  "getRepositoryOctokit gh = Inr True \<Longrightarrow> pulls_get gh = Inr p \<Longrightarrow> pulls_listFiles gh = Inr files
   \<Longrightarrow> take (maxFiles cfg) (filter (isReviewableFile cfg) files) = []
   \<Longrightarrow> reviewPullRequest tx cfg gh = (Inr (), [])"
  by (simp add: reviewPullRequest_def)

lemma reviewPullRequest_skips_no_new_comments:
  "getRepositoryOctokit gh = Inr True \<Longrightarrow> pulls_get gh = Inr p \<Longrightarrow> pulls_listFiles gh = Inr files
   \<Longrightarrow> filterDuplicateComments
         (collectComments gh (take (maxFiles cfg) (filter (isReviewableFile cfg) files)))
         (getExistingComments gh) = []
   \<Longrightarrow> reviewPullRequest tx cfg gh = (Inr (), [])"
  by (simp add: reviewPullRequest_def Let_def)

lemma scanPR_map:
  "pollShouldReview m owner repo pr \<Longrightarrow>
   fst (scanPR tx cfg gh owner repo m pr) =
     (if isl (fst (reviewPullRequest tx cfg gh)) then m else pollMarkReviewed m owner repo pr)"
  unfolding scanPR_def
  by (cases "reviewPullRequest tx cfg gh") (auto split: sum.splits)

lemma processPRReview_map:
  "fst (processPRReview tx cfg gh now w owner repo n sha) =
     (if isl (fst (reviewPullRequest tx cfg gh)) then w
      else webhookMarkReviewed now w owner repo n sha)"
  unfolding processPRReview_def
  by (cases "reviewPullRequest tx cfg gh") (auto split: sum.splits)

lemma scanPR_same_commit_skipped:
  "pr_number pr' = pr_number pr \<Longrightarrow> pr_head_sha pr' = pr_head_sha pr \<Longrightarrow>
   scanPR tx cfg gh' owner repo (pollMarkReviewed m owner repo pr) pr'
     = (pollMarkReviewed m owner repo pr, [])"
  by (simp add: scanPR_def pollShouldReview_def pollMarkReviewed_def)

lemma pollMarkReviewed_lookup:
  "pollMarkReviewed m owner repo pr (prKey owner repo (pr_number pr))
     = Some \<lparr>record_id = numberToString (pr_id pr), updated_at = pr_updated_at pr,
              head_sha = pr_head_sha pr\<rparr>"
  by (simp add: pollMarkReviewed_def)

lemma pollMarkReviewed_other:
  "k \<noteq> prKey owner repo (pr_number pr) \<Longrightarrow> pollMarkReviewed m owner repo pr k = m k"
  by (simp add: pollMarkReviewed_def)

lemma webhookMarkReviewed_lookup:
  "webhookMarkReviewed now w owner repo n sha (prKey owner repo n)
     = Some \<lparr>w_id = owner @ ''/'' @ repo @ ''/'' @ numberToString n, w_head_sha = sha,
              reviewed_at = now\<rparr>"
  by (simp add: webhookMarkReviewed_def)

lemma webhookMarkReviewed_other:
  "k \<noteq> prKey owner repo n \<Longrightarrow> webhookMarkReviewed now w owner repo n sha k = w k"
  by (simp add: webhookMarkReviewed_def)

lemma webhookRoute_reviews:
  "pull_request payload = Some wp \<Longrightarrow>
   action payload \<in> set [''opened'', ''synchronize'', ''reopened''] \<Longrightarrow>
   webhookShouldReview w (repository_owner_login payload) (repository_name payload)
     (wp_number wp) (wp_head_sha wp) \<Longrightarrow>
   webhookRoute tx cfg gh now w payload
     = processPRReview tx cfg gh now w (repository_owner_login payload) (repository_name payload)
         (wp_number wp) (wp_head_sha wp)"
  by (simp add: webhookRoute_def Let_def)

lemma scanPR_recorded_commit_skipped:
  "m (prKey owner repo (pr_number pr)) = Some rec \<Longrightarrow> head_sha rec = pr_head_sha pr \<Longrightarrow>
   scanPR tx cfg gh owner repo m pr = (m, [])"
  by (simp add: scanPR_def pollShouldReview_def)

lemma cleanupOldPRs_keeps:
  "m k = Some rec \<Longrightarrow> dateOf (updated_at rec) = Some t \<Longrightarrow> cutoff \<le> t \<Longrightarrow>
   cleanupOldPRs dateOf cutoff m k = Some rec"
  by (simp add: cleanupOldPRs_def)

lemma cleanupOldPRs_removes:
  "m k = Some rec \<Longrightarrow> dateOf (updated_at rec) = Some t \<Longrightarrow> t < cutoff \<Longrightarrow>
   cleanupOldPRs dateOf cutoff m k = None"
  by (simp add: cleanupOldPRs_def)

lemma scanPR_after_removal_reviews:
  "m (prKey owner repo (pr_number pr)) = None \<Longrightarrow>
   snd (scanPR tx cfg gh owner repo m pr) = snd (reviewPullRequest tx cfg gh)"
  unfolding scanPR_def
  by (cases "reviewPullRequest tx cfg gh") (auto simp: pollShouldReview_def split: sum.splits)

text \<open>
  C9, as the source has it. In both paths the record of a pull request is written when
  \<open>reviewPullRequest\<close> returns, and the map is left as it was when it throws. The record
  written holds the head commit under the key of the pull request, and no other key
  changes. \<open>reviewPullRequest\<close> returns without a request when the pull request is a draft
  or not open, when no file is reviewable, and when no comment is left after the
  deduplication. So a draft is recorded at its head commit, and a scan that finds a
  record with the same head commit in the map skips the pull request whatever the
  repository client would answer. The record does not stay for ever: the hourly sweep
  keeps it while its stored \<open>updated_at\<close> is not older than the cutoff and deletes it
  otherwise, and the scan after a deletion reviews the pull request again.
\<close>

theorem record_written_iff_review_returns:
  "(pollShouldReview m owner repo pr \<longrightarrow>
      fst (scanPR tx cfg gh owner repo m pr) =
        (if isl (fst (reviewPullRequest tx cfg gh)) then m else pollMarkReviewed m owner repo pr))
   \<and> fst (processPRReview tx cfg gh now w owner repo n sha) =
        (if isl (fst (reviewPullRequest tx cfg gh)) then w
         else webhookMarkReviewed now w owner repo n sha)
   \<and> (pull_request payload = Some wp
        \<and> action payload \<in> set [''opened'', ''synchronize'', ''reopened'']
        \<and> webhookShouldReview w (repository_owner_login payload) (repository_name payload)
             (wp_number wp) (wp_head_sha wp)
        \<longrightarrow> webhookRoute tx cfg gh now w payload
              = processPRReview tx cfg gh now w (repository_owner_login payload)
                  (repository_name payload) (wp_number wp) (wp_head_sha wp))
   \<and> pollMarkReviewed m owner repo pr (prKey owner repo (pr_number pr))
        = Some \<lparr>record_id = numberToString (pr_id pr), updated_at = pr_updated_at pr,
                 head_sha = pr_head_sha pr\<rparr>
   \<and> (k \<noteq> prKey owner repo (pr_number pr) \<longrightarrow> pollMarkReviewed m owner repo pr k = m k)
   \<and> webhookMarkReviewed now w owner repo n sha (prKey owner repo n)
        = Some \<lparr>w_id = owner @ ''/'' @ repo @ ''/'' @ numberToString n, w_head_sha = sha,
                 reviewed_at = now\<rparr>
   \<and> (k \<noteq> prKey owner repo n \<longrightarrow> webhookMarkReviewed now w owner repo n sha k = w k)
   \<and> (getRepositoryOctokit gh = Inr True \<and> pulls_get gh = Inr p \<and> (draft p \<or> state p \<noteq> ''open'')
        \<longrightarrow> reviewPullRequest tx cfg gh = (Inr (), []))
   \<and> (getRepositoryOctokit gh = Inr True \<and> pulls_get gh = Inr p \<and> pulls_listFiles gh = Inr files
        \<and> take (maxFiles cfg) (filter (isReviewableFile cfg) files) = []
        \<longrightarrow> reviewPullRequest tx cfg gh = (Inr (), []))
   \<and> (getRepositoryOctokit gh = Inr True \<and> pulls_get gh = Inr p \<and> pulls_listFiles gh = Inr files
        \<and> filterDuplicateComments
             (collectComments gh (take (maxFiles cfg) (filter (isReviewableFile cfg) files)))
             (getExistingComments gh) = []
        \<longrightarrow> reviewPullRequest tx cfg gh = (Inr (), []))
   \<and> (getRepositoryOctokit gh = Inr True \<and> pulls_get gh = Inr p \<and> draft p
        \<and> pollShouldReview m owner repo pr
        \<and> pr_number pr' = pr_number pr \<and> pr_head_sha pr' = pr_head_sha pr
        \<longrightarrow> scanPR tx cfg gh owner repo m pr = (pollMarkReviewed m owner repo pr, [])
            \<and> scanPR tx cfg gh' owner repo (pollMarkReviewed m owner repo pr) pr'
                = (pollMarkReviewed m owner repo pr, []))
   \<and> (m' (prKey owner repo (pr_number pr')) = Some rec \<and> head_sha rec = pr_head_sha pr'
        \<longrightarrow> scanPR tx cfg gh' owner repo m' pr' = (m', []))
   \<and> (m' key = Some rec \<and> dateOf (updated_at rec) = Some t \<and> cutoff \<le> t
        \<longrightarrow> cleanupOldPRs dateOf cutoff m' key = Some rec)
   \<and> (m' key = Some rec \<and> dateOf (updated_at rec) = Some t \<and> t < cutoff
        \<longrightarrow> cleanupOldPRs dateOf cutoff m' key = None)
   \<and> (m' (prKey owner repo (pr_number pr')) = None
        \<longrightarrow> snd (scanPR tx cfg gh' owner repo m' pr') = snd (reviewPullRequest tx cfg gh'))"
proof (intro conjI impI)
  assume "pollShouldReview m owner repo pr"
  then show "fst (scanPR tx cfg gh owner repo m pr) =
      (if isl (fst (reviewPullRequest tx cfg gh)) then m else pollMarkReviewed m owner repo pr)"
    by (rule scanPR_map)
next
  show "fst (processPRReview tx cfg gh now w owner repo n sha) =
      (if isl (fst (reviewPullRequest tx cfg gh)) then w
       else webhookMarkReviewed now w owner repo n sha)"
    by (rule processPRReview_map)
next
  assume "pull_request payload = Some wp
      \<and> action payload \<in> set [''opened'', ''synchronize'', ''reopened'']
      \<and> webhookShouldReview w (repository_owner_login payload) (repository_name payload)
           (wp_number wp) (wp_head_sha wp)"
  then show "webhookRoute tx cfg gh now w payload
      = processPRReview tx cfg gh now w (repository_owner_login payload)
          (repository_name payload) (wp_number wp) (wp_head_sha wp)"
    using webhookRoute_reviews by blast
next
  show "pollMarkReviewed m owner repo pr (prKey owner repo (pr_number pr))
      = Some \<lparr>record_id = numberToString (pr_id pr), updated_at = pr_updated_at pr,
               head_sha = pr_head_sha pr\<rparr>"
    by (rule pollMarkReviewed_lookup)
next
  assume "k \<noteq> prKey owner repo (pr_number pr)"
  then show "pollMarkReviewed m owner repo pr k = m k"
    by (rule pollMarkReviewed_other)
next
  show "webhookMarkReviewed now w owner repo n sha (prKey owner repo n)
      = Some \<lparr>w_id = owner @ ''/'' @ repo @ ''/'' @ numberToString n, w_head_sha = sha,
               reviewed_at = now\<rparr>"
    by (rule webhookMarkReviewed_lookup)
next
  assume "k \<noteq> prKey owner repo n"
  then show "webhookMarkReviewed now w owner repo n sha k = w k"
    by (rule webhookMarkReviewed_other)
next
  assume "getRepositoryOctokit gh = Inr True \<and> pulls_get gh = Inr p \<and> (draft p \<or> state p \<noteq> ''open'')"
  then show "reviewPullRequest tx cfg gh = (Inr (), [])"
    using reviewPullRequest_skips_draft_or_closed by blast
next
  assume "getRepositoryOctokit gh = Inr True \<and> pulls_get gh = Inr p \<and> pulls_listFiles gh = Inr files
      \<and> take (maxFiles cfg) (filter (isReviewableFile cfg) files) = []"
  then show "reviewPullRequest tx cfg gh = (Inr (), [])"
    using reviewPullRequest_skips_no_reviewable_files by blast
next
  assume "getRepositoryOctokit gh = Inr True \<and> pulls_get gh = Inr p \<and> pulls_listFiles gh = Inr files
      \<and> filterDuplicateComments
           (collectComments gh (take (maxFiles cfg) (filter (isReviewableFile cfg) files)))
           (getExistingComments gh) = []"
  then show "reviewPullRequest tx cfg gh = (Inr (), [])"
    using reviewPullRequest_skips_no_new_comments by blast
next
  assume a: "getRepositoryOctokit gh = Inr True \<and> pulls_get gh = Inr p \<and> draft p
      \<and> pollShouldReview m owner repo pr
      \<and> pr_number pr' = pr_number pr \<and> pr_head_sha pr' = pr_head_sha pr"
  then have "reviewPullRequest tx cfg gh = (Inr (), [])"
    using reviewPullRequest_skips_draft_or_closed by blast
  with a show "scanPR tx cfg gh owner repo m pr = (pollMarkReviewed m owner repo pr, [])"
    by (simp add: scanPR_def)
next
  assume "getRepositoryOctokit gh = Inr True \<and> pulls_get gh = Inr p \<and> draft p
      \<and> pollShouldReview m owner repo pr
      \<and> pr_number pr' = pr_number pr \<and> pr_head_sha pr' = pr_head_sha pr"
  then show "scanPR tx cfg gh' owner repo (pollMarkReviewed m owner repo pr) pr'
      = (pollMarkReviewed m owner repo pr, [])"
    using scanPR_same_commit_skipped by blast
next
  assume "m' (prKey owner repo (pr_number pr')) = Some rec \<and> head_sha rec = pr_head_sha pr'"
  then show "scanPR tx cfg gh' owner repo m' pr' = (m', [])"
    using scanPR_recorded_commit_skipped by blast
next
  assume "m' key = Some rec \<and> dateOf (updated_at rec) = Some t \<and> cutoff \<le> t"
  then show "cleanupOldPRs dateOf cutoff m' key = Some rec"
    using cleanupOldPRs_keeps by blast
next
  assume "m' key = Some rec \<and> dateOf (updated_at rec) = Some t \<and> t < cutoff"
  then show "cleanupOldPRs dateOf cutoff m' key = None"
    using cleanupOldPRs_removes by blast
next
  assume "m' (prKey owner repo (pr_number pr')) = None"
  then show "snd (scanPR tx cfg gh' owner repo m' pr') = snd (reviewPullRequest tx cfg gh')"
    by (rule scanPR_after_removal_reviews)
qed

theorem record_written_iff_review_returns_witness:
  "scanPR exampleTexts exampleConfig draftWorld ''o'' ''r'' Map.empty examplePR
     = (pollMarkReviewed Map.empty ''o'' ''r'' examplePR, [])
   \<and> scanPR exampleTexts exampleConfig readyWorld ''o'' ''r''
       (pollMarkReviewed Map.empty ''o'' ''r'' examplePR) examplePR
     = (pollMarkReviewed Map.empty ''o'' ''r'' examplePR, [])
   \<and> scanPR exampleTexts exampleConfig readyWorld ''o'' ''r'' Map.empty examplePR
     = (pollMarkReviewed Map.empty ''o'' ''r'' examplePR, [exampleRequest])
   \<and> pollMarkReviewed Map.empty ''o'' ''r'' examplePR (prKey ''o'' ''r'' 7)
     = Some \<lparr>record_id = ''1007'', updated_at = ''2024-01-01T00:00:00Z'', head_sha = ''sha1''\<rparr>
   \<and> snd (webhookRoute exampleTexts exampleConfig draftWorld ''2024-01-02T00:00:00Z'' Map.empty
            examplePayload) = []
   \<and> fst (webhookRoute exampleTexts exampleConfig draftWorld ''2024-01-02T00:00:00Z'' Map.empty
            examplePayload) (prKey ''o'' ''r'' 7) = Some exampleWebhookRecord
   \<and> webhookRoute exampleTexts exampleConfig readyWorld ''2024-01-03T00:00:00Z''
        (webhookMarkReviewed ''2024-01-02T00:00:00Z'' Map.empty ''o'' ''r'' 7 ''sha1'') examplePayload
      = (webhookMarkReviewed ''2024-01-02T00:00:00Z'' Map.empty ''o'' ''r'' 7 ''sha1'', [])
   \<and> cleanupOldPRs exampleDateOf 1704067200000 (pollMarkReviewed Map.empty ''o'' ''r'' examplePR)
        (prKey ''o'' ''r'' 7)
      = Some \<lparr>record_id = ''1007'', updated_at = ''2024-01-01T00:00:00Z'', head_sha = ''sha1''\<rparr>"
proof -
  let ?rec = "\<lparr>record_id = ''1007'', updated_at = ''2024-01-01T00:00:00Z'', head_sha = ''sha1''\<rparr>"
  let ?m1 = "pollMarkReviewed Map.empty ''o'' ''r'' examplePR"
  let ?w1 = "webhookMarkReviewed ''2024-01-02T00:00:00Z'' Map.empty ''o'' ''r'' 7 ''sha1''"
  note inst = record_written_iff_review_returns
    [where gh = draftWorld and gh' = readyWorld and tx = exampleTexts and cfg = exampleConfig
       and m = Map.empty and owner = "''o''" and repo = "''r''" and pr = examplePR
       and pr' = examplePR and p = "\<lparr>draft = True, state = ''open''\<rparr>"
       and w = Map.empty and now = "''2024-01-02T00:00:00Z''" and n = 7 and sha = "''sha1''"
       and payload = examplePayload and wp = "\<lparr>wp_number = 7, wp_head_sha = ''sha1''\<rparr>"
       and m' = ?m1 and key = "prKey ''o'' ''r'' 7" and rec = ?rec
       and dateOf = exampleDateOf and t = 1704067200000 and cutoff = 1704067200000]
  note rest2 = inst [THEN conjunct2]
  note webhook_map = rest2 [THEN conjunct1]
  note rest3 = rest2 [THEN conjunct2]
  note route_calls = rest3 [THEN conjunct1]
  note rest4 = rest3 [THEN conjunct2]
  note poll_record = rest4 [THEN conjunct1]
  note rest6 = rest4 [THEN conjunct2, THEN conjunct2]
  note webhook_record = rest6 [THEN conjunct1]
  note rest8 = rest6 [THEN conjunct2, THEN conjunct2]
  note draft_skipped = rest8 [THEN conjunct1]
  note rest11 = rest8 [THEN conjunct2, THEN conjunct2, THEN conjunct2]
  note draft_recorded = rest11 [THEN conjunct1]
  note sweep_keeps = rest11 [THEN conjunct2, THEN conjunct2, THEN conjunct1]
  have oct: "getRepositoryOctokit draftWorld = Inr True"
    and get: "pulls_get draftWorld = Inr \<lparr>draft = True, state = ''open''\<rparr>"
    by (simp_all add: draftWorld_def readyWorld_def)
  have new: "pollShouldReview Map.empty ''o'' ''r'' examplePR"
    by (simp add: pollShouldReview_def)
  have ready: "reviewPullRequest exampleTexts exampleConfig readyWorld = (Inr (), [exampleRequest])"
    by code_simp
  have drafted: "reviewPullRequest exampleTexts exampleConfig draftWorld = (Inr (), [])"
    using draft_skipped oct get by simp
  have fresh: "scanPR exampleTexts exampleConfig readyWorld ''o'' ''r'' Map.empty examplePR
     = (?m1, [exampleRequest])"
    by (simp add: scanPR_def new ready)
  have num: "numberToString 1007 = ''1007''" and num7: "numberToString 7 = ''7''"
    by code_simp+
  have pnum: "pr_number examplePR = 7" and pid: "pr_id examplePR = 1007"
    and pupd: "pr_updated_at examplePR = ''2024-01-01T00:00:00Z''"
    and psha: "pr_head_sha examplePR = ''sha1''"
    by (simp_all add: examplePR_def)
  have rec: "?m1 (prKey ''o'' ''r'' 7) = Some ?rec"
    using poll_record by (simp add: pnum pid pupd psha num)
  have poll: "scanPR exampleTexts exampleConfig draftWorld ''o'' ''r'' Map.empty examplePR = (?m1, [])
      \<and> scanPR exampleTexts exampleConfig readyWorld ''o'' ''r'' ?m1 examplePR = (?m1, [])"
    using draft_recorded oct get new by simp
  have pay: "pull_request examplePayload = Some \<lparr>wp_number = 7, wp_head_sha = ''sha1''\<rparr>"
    "action examplePayload = ''opened''"
    "repository_owner_login examplePayload = ''o''" "repository_name examplePayload = ''r''"
    by (simp_all add: examplePayload_def)
  have wnew: "webhookShouldReview Map.empty ''o'' ''r'' 7 ''sha1''"
    by (simp add: webhookShouldReview_def)
  have route: "webhookRoute exampleTexts exampleConfig draftWorld ''2024-01-02T00:00:00Z'' Map.empty
        examplePayload
      = processPRReview exampleTexts exampleConfig draftWorld ''2024-01-02T00:00:00Z'' Map.empty
          ''o'' ''r'' 7 ''sha1''"
    using route_calls pay wnew by simp
  have wmap: "fst (processPRReview exampleTexts exampleConfig draftWorld ''2024-01-02T00:00:00Z''
        Map.empty ''o'' ''r'' 7 ''sha1'') = ?w1"
    using webhook_map drafted by simp
  have wrec: "?w1 (prKey ''o'' ''r'' 7) = Some exampleWebhookRecord"
    using webhook_record by (simp add: exampleWebhookRecord_def num7)
  have wsent: "snd (processPRReview exampleTexts exampleConfig draftWorld ''2024-01-02T00:00:00Z''
        Map.empty ''o'' ''r'' 7 ''sha1'') = []"
    by (simp add: processPRReview_def drafted)
  have wskip: "webhookRoute exampleTexts exampleConfig readyWorld ''2024-01-03T00:00:00Z'' ?w1
        examplePayload = (?w1, [])"
    using wrec
    by (simp add: webhookRoute_def webhookShouldReview_def Let_def pay exampleWebhookRecord_def)
  have date: "exampleDateOf (updated_at ?rec) = Some 1704067200000"
    by (simp add: exampleDateOf_def)
  have kept: "cleanupOldPRs exampleDateOf 1704067200000 ?m1 (prKey ''o'' ''r'' 7) = Some ?rec"
    using sweep_keeps rec date by simp
  from poll fresh rec route wmap wrec wsent wskip kept show ?thesis
    by simp
qed

text \<open>
  The claim C9 as it is written ends: a draft that was recorded is not reviewed again by
  the polling path unless a new commit arrives. The draft of the example is recorded with
  its \<open>updated_at\<close> the first of January; a sweep eight days later deletes the record, and
  the scan that follows reviews the pull request, now open, at the same head commit.
\<close>

theorem swept_record_is_reviewed_again:
  "fst (scanPR exampleTexts exampleConfig draftWorld ''o'' ''r'' Map.empty examplePR)
       (prKey ''o'' ''r'' 7)
     = Some \<lparr>record_id = ''1007'', updated_at = ''2024-01-01T00:00:00Z'', head_sha = ''sha1''\<rparr>
   \<and> cleanupOldPRs exampleDateOf exampleCutoff
        (fst (scanPR exampleTexts exampleConfig draftWorld ''o'' ''r'' Map.empty examplePR))
        (prKey ''o'' ''r'' 7) = None
   \<and> pr_head_sha examplePR = ''sha1''
   \<and> snd (scanPR exampleTexts exampleConfig readyWorld ''o'' ''r''
            (cleanupOldPRs exampleDateOf exampleCutoff
               (fst (scanPR exampleTexts exampleConfig draftWorld ''o'' ''r'' Map.empty examplePR)))
            examplePR)
      = [exampleRequest]"
proof -
  let ?rec = "\<lparr>record_id = ''1007'', updated_at = ''2024-01-01T00:00:00Z'', head_sha = ''sha1''\<rparr>"
  let ?m1 = "pollMarkReviewed Map.empty ''o'' ''r'' examplePR"
  have new: "pollShouldReview Map.empty ''o'' ''r'' examplePR"
    by (simp add: pollShouldReview_def)
  have drafted: "reviewPullRequest exampleTexts exampleConfig draftWorld = (Inr (), [])"
    by code_simp
  have ready: "reviewPullRequest exampleTexts exampleConfig readyWorld = (Inr (), [exampleRequest])"
    by code_simp
  have first: "fst (scanPR exampleTexts exampleConfig draftWorld ''o'' ''r'' Map.empty examplePR) = ?m1"
    by (simp add: scanPR_def new drafted)
  have num: "numberToString 1007 = ''1007''"
    by code_simp
  have pnum: "pr_number examplePR = 7" and psha: "pr_head_sha examplePR = ''sha1''"
    by (simp_all add: examplePR_def)
  have rec: "?m1 (prKey ''o'' ''r'' 7) = Some ?rec"
    using pollMarkReviewed_lookup [of Map.empty "''o''" "''r''" examplePR]
    by (simp add: examplePR_def num)
  have date: "exampleDateOf (updated_at ?rec) = Some 1704067200000"
    by (simp add: exampleDateOf_def)
  have swept: "cleanupOldPRs exampleDateOf exampleCutoff ?m1 (prKey ''o'' ''r'' 7) = None"
    using rec date
    by (rule cleanupOldPRs_removes) (simp add: exampleCutoff_def)
  then have "snd (scanPR exampleTexts exampleConfig readyWorld ''o'' ''r''
        (cleanupOldPRs exampleDateOf exampleCutoff ?m1) examplePR)
      = snd (reviewPullRequest exampleTexts exampleConfig readyWorld)"
    by (intro scanPR_after_removal_reviews) (simp add: pnum)
  with ready first rec swept psha show ?thesis
    by simp
qed

lemma collectCommentKeys_fails:
  "r \<in> set reviews \<Longrightarrow> isAttributed r \<Longrightarrow> isl (listComments (review_id r))
   \<Longrightarrow> isl (collectCommentKeys listComments reviews keys)"
proof (induction reviews arbitrary: keys)
  case Nil
  then show ?case by simp
next
  case (Cons a reviews)
  show ?case
  proof (cases "isAttributed a")
    case False
    with Cons show ?thesis by auto
  next
    case True
    show ?thesis
    proof (cases "listComments (review_id a)")
      case (Inl e)
      with True show ?thesis by simp
    next
      case (Inr comments)
      with True Cons show ?thesis by auto
    qed
  qed
qed

lemma getExistingComments_empty_on_failure:
  assumes "pulls_listReviews gh = Inl e
     \<or> (\<exists>reviews r. pulls_listReviews gh = Inr reviews \<and> r \<in> set reviews \<and> isAttributed r
           \<and> isl (pulls_listCommentsForReview gh (review_id r)))"
  shows "getExistingComments gh = {}"
  using assms
proof
  assume "pulls_listReviews gh = Inl e"
  then show ?thesis by (simp add: getExistingComments_def)
next
  assume "\<exists>reviews r. pulls_listReviews gh = Inr reviews \<and> r \<in> set reviews \<and> isAttributed r
           \<and> isl (pulls_listCommentsForReview gh (review_id r))"
  then obtain reviews r where l: "pulls_listReviews gh = Inr reviews"
    and r: "r \<in> set reviews" "isAttributed r" "isl (pulls_listCommentsForReview gh (review_id r))"
    by blast
  from r have "isl (collectCommentKeys (pulls_listCommentsForReview gh) reviews {})"
    by (rule collectCommentKeys_fails)
  with l show ?thesis
    by (auto simp: getExistingComments_def split: sum.splits)
qed

lemma getExistingComments_no_reviews:
  "getExistingComments (gh\<lparr>pulls_listReviews := Inr []\<rparr>) = {}"
  by (simp add: getExistingComments_def)

lemma collectComments_listReviews_update:
  "collectComments (gh\<lparr>pulls_listReviews := x\<rparr>) files = collectComments gh files"
  by (simp add: collectComments_def cong: if_cong)

lemma postReviewComments_listReviews_update:
  "postReviewComments tx (gh\<lparr>pulls_listReviews := x\<rparr>) comments = postReviewComments tx gh comments"
  by (simp add: postReviewComments_def)

lemma reviewPullRequest_without_existing:
  "getExistingComments gh = {} \<Longrightarrow>
   reviewPullRequest tx cfg gh = reviewPullRequest tx cfg (gh\<lparr>pulls_listReviews := Inr []\<rparr>)"
  unfolding reviewPullRequest_def Let_def
  by (simp add: getExistingComments_no_reviews collectComments_listReviews_update
        postReviewComments_listReviews_update cong: if_cong sum.case_cong bool.case_cong)

text \<open>
  C10. When listing the reviews fails, or listing the comments of one of this system's
  reviews fails, \<open>getExistingComments\<close> returns the empty set: the deduplication then
  keeps every comment, and \<open>reviewPullRequest\<close> goes on as it does for a pull request
  without any earlier review, instead of failing.
\<close>

theorem getExistingComments_failure_disables_dedup:
  assumes "pulls_listReviews gh = Inl e
     \<or> (\<exists>reviews r. pulls_listReviews gh = Inr reviews \<and> r \<in> set reviews \<and> isAttributed r
           \<and> isl (pulls_listCommentsForReview gh (review_id r)))"
  shows "getExistingComments gh = {}
     \<and> filterDuplicateComments comments (getExistingComments gh) = comments
     \<and> reviewPullRequest tx cfg gh = reviewPullRequest tx cfg (gh\<lparr>pulls_listReviews := Inr []\<rparr>)"
proof -
  from assms have empty: "getExistingComments gh = {}"
    by (rule getExistingComments_empty_on_failure)
  then have "filterDuplicateComments comments (getExistingComments gh) = comments"
    by (simp add: filterDuplicateComments_def)
  with empty reviewPullRequest_without_existing [OF empty] show ?thesis
    by simp
qed

theorem getExistingComments_failure_disables_dedup_witness:
  "getExistingComments failingWorld = {}
   \<and> getExistingComments reviewedWorld = {''a.ts:10''}
   \<and> reviewPullRequest exampleTexts exampleConfig reviewedWorld = (Inr (), [])
   \<and> reviewPullRequest exampleTexts exampleConfig failingWorld = (Inr (), [exampleRequest])"
proof -
  have fails: "pulls_listReviews failingWorld = Inl (RequestError ''listReviews'')"
    by (simp add: failingWorld_def)
  have ok: "getExistingComments reviewedWorld = {''a.ts:10''}"
    by code_simp
  have skipped: "reviewPullRequest exampleTexts exampleConfig reviewedWorld = (Inr (), [])"
    by code_simp
  have fresh: "reviewPullRequest exampleTexts exampleConfig (failingWorld\<lparr>pulls_listReviews := Inr []\<rparr>)
      = (Inr (), [exampleRequest])"
    by code_simp
  from getExistingComments_failure_disables_dedup
    [where gh = failingWorld and e = "RequestError ''listReviews''" and tx = exampleTexts
       and cfg = exampleConfig, OF disjI1, OF fails]
    ok skipped fresh
  show ?thesis by simp
qed

section \<open>Properties of the parser\<close>

lemma severity_truthy:
  "v \<in> set [Some (JStr ''error''), Some (JStr ''warning''), Some (JStr ''info'')] \<Longrightarrow> truthy v"
  by auto

lemma isPositiveNumber_iff: "isPositiveNumber v \<longleftrightarrow> truthy v \<and> \<not> notPositiveNumber v"
proof (cases v)
  case None
  then show ?thesis by (simp add: isPositiveNumber_def)
next
  case (Some j)
  then show ?thesis by (cases j) (auto simp: isPositiveNumber_def)
qed

lemma validComment_object: "validComment (JObj kvs) = Inr (acceptedComment (JObj kvs))"
  using severity_truthy [of "map_of kvs ''severity''"]
  by (auto simp: validComment_def acceptedComment_def isPositiveNumber_iff)

lemma validComment_not_null: "c \<noteq> JNull \<Longrightarrow> validComment c = Inr (acceptedComment c)"
proof (cases c)
  case (JObj kvs)
  then show ?thesis by (simp add: validComment_object)
qed (simp_all add: validComment_def acceptedComment_def)

lemma validComment_null: "validComment JNull = Inl TypeError"
  by (simp add: validComment_def)

lemma filterComments_without_null:
  "JNull \<notin> set comments \<Longrightarrow> filterComments comments = Inr (filter acceptedComment comments)"
  by (induction comments) (auto simp: validComment_not_null)

lemma filterComments_with_null:
  "JNull \<in> set comments \<Longrightarrow> filterComments comments = Inl TypeError"
proof (induction comments)
  case Nil
  then show ?case by simp
next
  case (Cons c comments)
  show ?case
  proof (cases "c = JNull")
    case True
    then show ?thesis by (simp add: validComment_null)
  next
    case False
    with Cons have "filterComments comments = Inl TypeError" by simp
    with False show ?thesis by (simp add: validComment_not_null)
  qed
qed

lemma filterComments_result:
  "filterComments comments = Inr kept \<Longrightarrow> kept = filter acceptedComment comments"
  using filterComments_with_null [of comments] filterComments_without_null [of comments]
  by (cases "JNull \<in> set comments") auto

lemma parseGeminiResponse_whole:
  "parse (trim response) = Some (JArr comments) \<Longrightarrow>
   parseGeminiResponse parse response =
     (case filterComments comments of Inl e \<Rightarrow> [] | Inr kept \<Rightarrow> kept)"
  by (simp add: parseGeminiResponse_def parseWhole_def)




lemma parseGeminiResponse_accepted:
  "list_all acceptedComment (parseGeminiResponse parse response)"
proof -
  have "list_all acceptedComment (case filterComments comments of Inl e \<Rightarrow> [] | Inr kept \<Rightarrow> kept)"
    for comments
    by (cases "filterComments comments") (auto dest!: filterComments_result simp: list_all_iff)
  then show ?thesis
    by (auto simp: parseGeminiResponse_def split: option.splits json.splits)
qed

lemma parseGeminiResponse_no_array:
  assumes "\<forall>s \<in> set (parseCandidates response). \<forall>xs. parse s \<noteq> Some (JArr xs)"
  shows "parseGeminiResponse parse response = []"
proof -
  from assms have whole: "parseWhole parse response = None"
    by (auto simp: parseWhole_def parseCandidates_def split: option.splits json.splits)
  from assms have "\<forall>xs. extractJson parse response \<noteq> Some (JArr xs)"
    by (auto simp: extractJson_def parseCandidates_def split: option.splits)
  with whole show ?thesis
    by (auto simp: parseGeminiResponse_def split: option.splits json.splits)
qed

lemma parseGeminiResponse_no_bracket:
  assumes "indexOf response (CHR ''['') = None" and "\<forall>xs. parse (trim response) \<noteq> Some (JArr xs)"
  shows "parseGeminiResponse parse response = []"
proof (rule parseGeminiResponse_no_array)
  from assms(1) have "parseCandidates response = [trim response]"
    by (simp add: parseCandidates_def matchJsonArray_def)
  with assms(2) show "\<forall>s \<in> set (parseCandidates response). \<forall>xs. parse s \<noteq> Some (JArr xs)"
    by simp
qed

lemma parseGeminiResponse_not_whole:
  assumes "\<forall>xs. parse (trim response) \<noteq> Some (JArr xs)"
  shows "parseGeminiResponse parse response =
     (case extractJson parse response of
        Some (JArr comments) \<Rightarrow>
          (case filterComments comments of Inl e \<Rightarrow> [] | Inr kept \<Rightarrow> kept)
      | _ \<Rightarrow> [])"
proof -
  from assms have "parseWhole parse response = None"
    by (auto simp: parseWhole_def split: option.splits json.splits)
  then show ?thesis
    by (auto simp: parseGeminiResponse_def split: option.splits json.splits)
qed

text \<open>
  C6, as the source has it. \<open>parseGeminiResponse\<close> returns a list for every text: every
  exception inside it is caught. Every element of the list passed the validation of the
  source (see C3: a truthy path and message, one of the three severities, a number
  greater than 0 as line), which is less than a valid comment. The list is empty when
  none of the strings handed to \<open>JSON.parse\<close> gives an array (each one fails to parse,
  also after the repair, or gives another value), when the text has no \<open>[\<close> and is not
  itself an array, and when the validation throws on a \<open>null\<close> element. A text whose
  value is not an array is no failure by itself: the function goes on with the array it
  extracts from the text.
\<close>

theorem parseGeminiResponse_never_raises:
  "list_all acceptedComment (parseGeminiResponse parse response)
   \<and> ((\<forall>s \<in> set (parseCandidates response). \<forall>xs. parse s \<noteq> Some (JArr xs))
        \<longrightarrow> parseGeminiResponse parse response = [])
   \<and> (indexOf response (CHR ''['') = None \<and> (\<forall>xs. parse (trim response) \<noteq> Some (JArr xs))
        \<longrightarrow> parseGeminiResponse parse response = [])
   \<and> (parse (trim response) = Some (JArr comments) \<and> JNull \<in> set comments
        \<longrightarrow> parseGeminiResponse parse response = [])
   \<and> ((\<forall>xs. parse (trim response) \<noteq> Some (JArr xs))
        \<longrightarrow> parseGeminiResponse parse response =
              (case extractJson parse response of
                 Some (JArr nested) \<Rightarrow>
                   (case filterComments nested of Inl e \<Rightarrow> [] | Inr kept \<Rightarrow> kept)
               | _ \<Rightarrow> []))"
proof (intro conjI impI)
  show "list_all acceptedComment (parseGeminiResponse parse response)"
    by (rule parseGeminiResponse_accepted)
next
  assume "\<forall>s \<in> set (parseCandidates response). \<forall>xs. parse s \<noteq> Some (JArr xs)"
  then show "parseGeminiResponse parse response = []"
    by (rule parseGeminiResponse_no_array)
next
  assume "indexOf response (CHR ''['') = None \<and> (\<forall>xs. parse (trim response) \<noteq> Some (JArr xs))"
  then show "parseGeminiResponse parse response = []"
    using parseGeminiResponse_no_bracket by blast
next
  assume "parse (trim response) = Some (JArr comments) \<and> JNull \<in> set comments"
  then show "parseGeminiResponse parse response = []"
    by (simp add: parseGeminiResponse_whole filterComments_with_null)
next
  assume "\<forall>xs. parse (trim response) \<noteq> Some (JArr xs)"
  then show "parseGeminiResponse parse response =
      (case extractJson parse response of
         Some (JArr nested) \<Rightarrow>
           (case filterComments nested of Inl e \<Rightarrow> [] | Inr kept \<Rightarrow> kept)
       | _ \<Rightarrow> [])"
    by (rule parseGeminiResponse_not_whole)
qed

theorem parseGeminiResponse_never_raises_witness:
  "parseGeminiResponse exampleParse ''No issues found.'' = []
   \<and> parseGeminiResponse exampleParse ''Sorry, [truncated'' = []
   \<and> parseGeminiResponse exampleParse (''Result: '' @ exampleArrayText @ '' Done.'') = [wellFormedComment]
   \<and> list_all acceptedComment [wellFormedComment]"
proof -
  have nobracket: "indexOf ''No issues found.'' (CHR ''['') = None"
    by simp
  have "exampleParse (trim ''No issues found.'') = None"
    by code_simp
  then have noarray: "\<forall>xs. exampleParse (trim ''No issues found.'') \<noteq> Some (JArr xs)"
    by simp
  have cands: "parseCandidates ''Sorry, [truncated'' = [''Sorry, [truncated'', ''[truncated]'']"
    by code_simp
  have "exampleParse ''Sorry, [truncated'' = None" and "exampleParse ''[truncated]'' = None"
    by code_simp+
  with cands have fails: "\<forall>s \<in> set (parseCandidates ''Sorry, [truncated''). \<forall>xs. exampleParse s \<noteq> Some (JArr xs)"
    by simp
  have found: "parseGeminiResponse exampleParse (''Result: '' @ exampleArrayText @ '' Done.'') = [wellFormedComment]"
    by code_simp
  note first_inst = parseGeminiResponse_never_raises
         [where parse = exampleParse and response = "''No issues found.''"]
  from first_inst [THEN conjunct2, THEN conjunct2, THEN conjunct1] nobracket noarray
  have first: "parseGeminiResponse exampleParse ''No issues found.'' = []"
    by blast
  note second_inst = parseGeminiResponse_never_raises
         [where parse = exampleParse and response = "''Sorry, [truncated''"]
  from second_inst [THEN conjunct2, THEN conjunct1] fails
  have second: "parseGeminiResponse exampleParse ''Sorry, [truncated'' = []"
    by blast
  note third_inst = parseGeminiResponse_never_raises
         [where parse = exampleParse and response = "''Result: '' @ exampleArrayText @ '' Done.''"]
  from third_inst [THEN conjunct1]
  have "list_all acceptedComment
      (parseGeminiResponse exampleParse (''Result: '' @ exampleArrayText @ '' Done.''))" .
  with found have "list_all acceptedComment [wellFormedComment]"
    by simp
  with first second found show ?thesis
    by simp
qed

lemma fractionalLineComment_not_specValid: "\<not> specValid fractionalLineComment"
proof -
  have "\<lfloor>3 / 2 :: rat\<rfloor> = 1"
    by (simp add: floor_eq_iff)
  then show ?thesis
    by (simp add: fractionalLineComment_def specValid_def isIntegerFrom1_def)
qed

text \<open>
  The claim C6 as it is written says that the list returned holds valid comments only,
  and that a top-level value that is not an array gives the empty list. The answer that
  is the array with the comment at line \<open>1.5\<close> comes back with that comment, which is not
  valid; the answer that is an object holding the array of the well-formed comment comes
  back with that comment, not empty.
\<close>

theorem parseGeminiResponse_returns_invalid_and_nested:
  "parseGeminiResponse exampleParse fractionalArrayText = [fractionalLineComment]
   \<and> \<not> specValid fractionalLineComment
   \<and> exampleParse (trim wrappedArrayText) = Some (JObj [(''comments'', JArr [wellFormedComment])])
   \<and> parseGeminiResponse exampleParse wrappedArrayText = [wellFormedComment]
   \<and> parseGeminiResponse exampleParse wrappedArrayText \<noteq> []"
proof -
  have a: "parseGeminiResponse exampleParse fractionalArrayText = [fractionalLineComment]"
    by code_simp
  have b: "exampleParse (trim wrappedArrayText) = Some (JObj [(''comments'', JArr [wellFormedComment])])"
    by code_simp
  have c: "parseGeminiResponse exampleParse wrappedArrayText = [wellFormedComment]"
    by code_simp
  from a b c fractionalLineComment_not_specValid show ?thesis
    by simp
qed

section \<open>Properties of lines\<close>

lemma split_nl_not_Nil [simp]: "split_nl s \<noteq> []"
  by (induction s) (auto split: list.splits)

lemma join_nl_Cons: "ls \<noteq> [] \<Longrightarrow> join_nl (l # ls) = l @ newline # join_nl ls"
  by (cases ls) simp_all

lemma join_nl_snoc: "ls \<noteq> [] \<Longrightarrow> join_nl (ls @ [l]) = join_nl ls @ newline # l"
proof (induction ls)
  case Nil
  then show ?case by simp
next
  case (Cons a ls)
  then show ?case by (cases ls) (simp_all add: join_nl_Cons)
qed

lemma join_split_nl: "join_nl (split_nl s) = s"
proof (induction s)
  case Nil
  show ?case by simp
next
  case (Cons c s)
  show ?case
  proof (cases "c = newline")
    case True
    with Cons show ?thesis by (simp add: join_nl_Cons)
  next
    case False
    obtain l ls where sp: "split_nl s = l # ls"
      by (cases "split_nl s") simp_all
    with Cons have "join_nl (l # ls) = s" by simp
    then have "join_nl ((c # l) # ls) = c # s"
      by (cases ls) auto
    with False sp show ?thesis by simp
  qed
qed

lemma split_nl_no_newline: "l \<in> set (split_nl s) \<Longrightarrow> newline \<notin> set l"
proof (induction s arbitrary: l)
  case Nil
  then show ?case by simp
next
  case (Cons c s)
  obtain k ks where sp: "split_nl s = k # ks"
    by (cases "split_nl s") simp_all
  show ?case
  proof (cases "c = newline")
    case True
    with Cons show ?thesis by auto
  next
    case False
    with Cons.prems sp have "l = c # k \<or> l \<in> set ks" by simp
    then show ?thesis
    proof
      assume "l = c # k"
      moreover have "newline \<notin> set k" using Cons.IH [of k] sp by simp
      ultimately show ?thesis using False by auto
    next
      assume "l \<in> set ks"
      then show ?thesis using Cons.IH [of l] sp by simp
    qed
  qed
qed

lemma split_nl_line: "newline \<notin> set l \<Longrightarrow> split_nl l = [l]"
  by (induction l) auto

lemma split_nl_line_newline:
  "newline \<notin> set l \<Longrightarrow> split_nl (l @ newline # s) = l # split_nl s"
  by (induction l) auto

lemma split_join_nl:
  "ls \<noteq> [] \<Longrightarrow> \<forall>l \<in> set ls. newline \<notin> set l \<Longrightarrow> split_nl (join_nl ls) = ls"
proof (induction ls)
  case Nil
  then show ?case by simp
next
  case (Cons a ls)
  show ?case
  proof (cases ls)
    case Nil
    with Cons.prems show ?thesis by (simp add: split_nl_line)
  next
    case (Cons b bs)
    with Cons.prems Cons.IH show ?thesis
      by (simp add: split_nl_line_newline)
  qed
qed

section \<open>Properties of the prompt\<close>

text \<open>
  The value that \<open>currentLength\<close> has after the lines \<open>ls\<close> were kept: one more than
  the length of their join, or 0 when none was kept.
\<close>

lemma length_join_nl:
  "ls \<noteq> [] \<Longrightarrow> length (join_nl ls) + 1 = (\<Sum>l\<leftarrow>ls. length l + 1)"
proof (induction ls)
  case Nil
  then show ?case by simp
next
  case (Cons a ls)
  then show ?case by (cases ls) (simp_all add: join_nl_Cons)
qed

lemma truncateLoop_keeps_whole_lines:
  assumes "cur = (\<Sum>l\<leftarrow>kept. length l + 1)"
    and "(\<Sum>l\<leftarrow>kept. length l + 1) \<le> m + 1"
    and "(\<Sum>l\<leftarrow>kept @ rest. length l + 1) > m + 1"
  shows "\<exists>n < length rest.
           truncateLoop m kept cur rest = kept @ take n rest @ [truncationMarker]
           \<and> (\<Sum>l\<leftarrow>kept @ take n rest. length l + 1) \<le> m + 1"
  using assms
proof (induction rest arbitrary: kept cur)
  case Nil
  then show ?case by simp
next
  case (Cons line rest)
  show ?case
  proof (cases "cur + length line > m")
    case True
    with Cons.prems have "truncateLoop m kept cur (line # rest) = kept @ take 0 (line # rest) @ [truncationMarker]
        \<and> (\<Sum>l\<leftarrow>kept @ take 0 (line # rest). length l + 1) \<le> m + 1"
      by simp
    then show ?thesis by blast
  next
    case False
    with Cons.prems have step: "truncateLoop m kept cur (line # rest)
        = truncateLoop m (kept @ [line]) (cur + length line + 1) rest"
      by simp
    from Cons.prems False
    have "\<exists>n < length rest.
           truncateLoop m (kept @ [line]) (cur + length line + 1) rest
             = (kept @ [line]) @ take n rest @ [truncationMarker]
           \<and> (\<Sum>l\<leftarrow>(kept @ [line]) @ take n rest. length l + 1) \<le> m + 1"
      by (intro Cons.IH) simp_all
    then obtain n where n: "n < length rest"
      "truncateLoop m (kept @ [line]) (cur + length line + 1) rest
             = (kept @ [line]) @ take n rest @ [truncationMarker]"
      "(\<Sum>l\<leftarrow>(kept @ [line]) @ take n rest. length l + 1) \<le> m + 1"
      by blast
    with step have "Suc n < length (line # rest)
        \<and> truncateLoop m kept cur (line # rest) = kept @ take (Suc n) (line # rest) @ [truncationMarker]
        \<and> (\<Sum>l\<leftarrow>kept @ take (Suc n) (line # rest). length l + 1) \<le> m + 1"
      by simp
    then show ?thesis by blast
  qed
qed

lemma length_join_nl_with_marker:
  assumes "(\<Sum>l\<leftarrow>ls. length l + 1) \<le> m + 1"
  shows "length (join_nl ls) \<le> m
     \<and> length (join_nl (ls @ [truncationMarker])) \<le> m + 1 + length truncationMarker"
proof (cases "ls = []")
  case True
  then show ?thesis by simp
next
  case False
  with assms length_join_nl [of ls] have "length (join_nl ls) \<le> m" by simp
  with False show ?thesis by (simp add: join_nl_snoc)
qed

text \<open>
  C4, as the source has it. When the patch is longer than the budget
  \<open>1500 + min (additions * 10) 1000\<close>, the diff of the prompt consists of the first \<open>n\<close>
  whole lines of the patch, for some \<open>n\<close> smaller than the number of lines, followed by
  the marker line. The kept lines have at most the budget as their length; the diff with
  the marker has at most the budget, the marker and the newline that joins the two.
\<close>

theorem promptDiff_truncates_at_line_boundary:
  assumes "length (patch file) > calculateMaxDiffLength file"
  shows "calculateMaxDiffLength file = 1500 + min (additions file * 10) 1000
     \<and> (\<exists>n < length (split_nl (patch file)).
          promptDiff file = join_nl (take n (split_nl (patch file)) @ [truncationMarker])
          \<and> length (join_nl (take n (split_nl (patch file)))) \<le> calculateMaxDiffLength file)
     \<and> length (promptDiff file) \<le> calculateMaxDiffLength file + 1 + length truncationMarker"
proof -
  let ?m = "calculateMaxDiffLength file"
  let ?lines = "split_nl (patch file)"
  have "length (join_nl ?lines) + 1 = (\<Sum>l\<leftarrow>?lines. length l + 1)"
    by (rule length_join_nl) simp
  with assms have long: "(\<Sum>l\<leftarrow>[] @ ?lines. length l + 1) > ?m + 1"
    by (simp add: join_split_nl)
  have "\<exists>n < length ?lines.
          truncateLoop ?m [] 0 ?lines = [] @ take n ?lines @ [truncationMarker]
          \<and> (\<Sum>l\<leftarrow>[] @ take n ?lines. length l + 1) \<le> ?m + 1"
    using long by (intro truncateLoop_keeps_whole_lines) simp_all
  then obtain n where n: "n < length ?lines"
    "truncateLoop ?m [] 0 ?lines = take n ?lines @ [truncationMarker]"
    "(\<Sum>l\<leftarrow>take n ?lines. length l + 1) \<le> ?m + 1"
    by auto
  from assms n(2) have diff: "promptDiff file = join_nl (take n ?lines @ [truncationMarker])"
    by (simp add: promptDiff_def Let_def)
  from length_join_nl_with_marker [OF n(3)]
  have bounds: "length (join_nl (take n ?lines)) \<le> ?m"
    "length (join_nl (take n ?lines @ [truncationMarker])) \<le> ?m + 1 + length truncationMarker"
    by simp_all
  have budget: "?m = 1500 + min (additions file * 10) 1000"
    by (simp add: calculateMaxDiffLength_def)
  from n(1) diff bounds(1)
  have "\<exists>n < length ?lines.
          promptDiff file = join_nl (take n ?lines @ [truncationMarker])
          \<and> length (join_nl (take n ?lines)) \<le> ?m"
    by blast
  moreover from diff bounds(2)
  have "length (promptDiff file) \<le> ?m + 1 + length truncationMarker"
    by simp
  ultimately show ?thesis using budget by blast
qed

lemma promptDiff_long_first_line:
  assumes "patch file = replicate m c @ [newline, d]" and "c \<noteq> newline" and "d \<noteq> newline"
    and "calculateMaxDiffLength file = m"
  shows "promptDiff file = replicate m c @ newline # truncationMarker"
proof -
  have "split_nl (replicate m c @ newline # [d]) = replicate m c # split_nl [d]"
    using assms(2) by (intro split_nl_line_newline) simp
  with assms(3) have "split_nl (patch file) = [replicate m c, [d]]"
    by (simp add: assms(1))
  with assms(1,4) show ?thesis
    by (simp add: promptDiff_def Let_def)
qed

text \<open>
  The claim C4 as it is written bounds the diff of the prompt by the budget plus the
  length of the marker. For the file whose patch has a first line of 1500 characters and
  a second line, the budget is 1500 and the diff is the first line, a newline and the
  marker: one character more.
\<close>

theorem promptDiff_exceeds_budget_plus_marker:
  "length (patch longLineFile) > calculateMaxDiffLength longLineFile
   \<and> length (promptDiff longLineFile) = 1536
   \<and> calculateMaxDiffLength longLineFile + length truncationMarker = 1535
   \<and> \<not> length (promptDiff longLineFile) \<le> calculateMaxDiffLength longLineFile + length truncationMarker"
proof -
  have p: "patch longLineFile = replicate 1500 (CHR ''a'') @ [newline, CHR ''b'']"
    unfolding longLineFile_def by (rule changed_file.select_convs)
  have m: "calculateMaxDiffLength longLineFile = 1500"
    by (simp add: calculateMaxDiffLength_def longLineFile_def)
  have marker: "length truncationMarker = 35"
    by (simp add: truncationMarker_def)
  have "promptDiff longLineFile = replicate 1500 (CHR ''a'') @ newline # truncationMarker"
    using p _ _ m by (rule promptDiff_long_first_line) (simp_all add: newline_def)
  then have "length (promptDiff longLineFile) = 1536"
    by (simp add: marker)
  moreover have "length (patch longLineFile) = 1502"
    unfolding p by simp
  ultimately show ?thesis using m marker by simp
qed

theorem promptDiff_truncates_at_line_boundary_witness:
  "length (patch longLineFile) > calculateMaxDiffLength longLineFile
   \<and> length (promptDiff longLineFile) \<le> 1536"
proof -
  have p: "patch longLineFile = replicate 1500 (CHR ''a'') @ [newline, CHR ''b'']"
    unfolding longLineFile_def by (rule changed_file.select_convs)
  have m: "calculateMaxDiffLength longLineFile = 1500"
    by (simp add: calculateMaxDiffLength_def longLineFile_def)
  have "length (patch longLineFile) = 1502"
    unfolding p by simp
  with m have long: "length (patch longLineFile) > calculateMaxDiffLength longLineFile"
    by simp
  have marker: "length truncationMarker = 35"
    by (simp add: truncationMarker_def)
  from promptDiff_truncates_at_line_boundary [OF long] m marker long show ?thesis
    by simp
qed

section \<open>Properties of the diff segmentation\<close>

lemma concat_pieces: "concat (pieces cur ls) = cur @ ls"
  by (induction ls arbitrary: cur) auto

lemma pieces_nonempty_groups: "[] \<notin> set (pieces cur ls)"
  by (induction ls arbitrary: cur) auto

lemma set_concat_pieces: "g \<in> set (pieces cur ls) \<Longrightarrow> set g \<subseteq> set cur \<union> set ls"
proof -
  assume "g \<in> set (pieces cur ls)"
  then have "set g \<subseteq> set (concat (pieces cur ls))" by auto
  then show ?thesis by (simp add: concat_pieces)
qed

text \<open>The chunks of \<open>splitLoop\<close> and of the final push are the joins of the line groups.\<close>

lemma splitLoop_contents:
  "splitLoop hdr hunks cur a d ls = (hunks', cur', a', d') \<Longrightarrow>
   map content (if cur' \<noteq> [] then hunks' @ [mkHunk hdr cur' a' d'] else hunks')
     = map content hunks @ map (\<lambda>g. join_nl (hdr @ g)) (pieces cur ls)"
proof (induction ls arbitrary: hunks cur a d)
  case Nil
  then show ?case by (auto simp: mkHunk_def)
next
  case (Cons l ls)
  show ?case
  proof (cases "startsWith l ''@@''")
    case True
    with Cons.prems have "splitLoop hdr
        (if cur \<noteq> [] then hunks @ [mkHunk hdr cur a d] else hunks) [l] 0 0 ls = (hunks', cur', a', d')"
      by simp
    from Cons.IH [OF this] True show ?thesis
      by (simp add: mkHunk_def)
  next
    case False
    show ?thesis
    proof (cases "length (cur @ [l]) > 100")
      case True
      with False Cons.prems obtain a1 d1 where
        "splitLoop hdr (hunks @ [mkHunk hdr (cur @ [l]) a1 d1]) [] 0 0 ls = (hunks', cur', a', d')"
        by (simp add: Let_def)
      from Cons.IH [OF this] False True show ?thesis
        by (simp add: mkHunk_def)
    next
      case long: False
      with False Cons.prems obtain a1 d1 where
        "splitLoop hdr hunks (cur @ [l]) a1 d1 ls = (hunks', cur', a', d')"
        by (simp add: Let_def)
      from Cons.IH [OF this] False long show ?thesis
        by simp
    qed
  qed
qed

lemma splitIntoHunks_contents:
  assumes "diffLines \<noteq> []"
  shows "map content (splitIntoHunks diffLines)
     = map (\<lambda>g. join_nl (captureHeaders diffLines @ g)) (pieces [] diffLines)"
proof -
  let ?hdr = "captureHeaders diffLines"
  obtain hunks' cur' a' d' where loop: "splitLoop ?hdr [] [] 0 0 diffLines = (hunks', cur', a', d')"
    by (cases "splitLoop ?hdr [] [] 0 0 diffLines") auto
  define final where "final = (if cur' \<noteq> [] then hunks' @ [mkHunk ?hdr cur' a' d'] else hunks')"
  from splitLoop_contents [OF loop]
  have c: "map content final = map (\<lambda>g. join_nl (?hdr @ g)) (pieces [] diffLines)"
    by (simp add: final_def)
  from assms concat_pieces [of "[]" diffLines] have "pieces [] diffLines \<noteq> []"
    by auto
  moreover from c have "length final = length (pieces [] diffLines)"
    by (metis length_map)
  ultimately have "final \<noteq> []"
    by auto
  with loop have "splitIntoHunks diffLines = final"
    by (simp add: splitIntoHunks_def Let_def final_def)
  with c show ?thesis by simp
qed

lemma captureHeaders_subset: "set (captureHeaders diffLines) \<subseteq> set diffLines"
  by (auto simp: captureHeaders_def dest: set_takeWhileD in_set_takeD)

lemma hunkPortions_eq_pieces:
  assumes "diffLines \<noteq> []" and "\<forall>l \<in> set diffLines. newline \<notin> set l"
  shows "hunkPortions diffLines = pieces [] diffLines"
proof -
  let ?hdr = "captureHeaders diffLines"
  have portion: "drop (length ?hdr) (split_nl (join_nl (?hdr @ g))) = g"
    if "g \<in> set (pieces [] diffLines)" for g
  proof -
    from that have "g \<noteq> []" using pieces_nonempty_groups [of "[]" diffLines] by auto
    moreover from that have "set g \<subseteq> set diffLines"
      using set_concat_pieces [of g "[]" diffLines] by simp
    with assms(2) captureHeaders_subset [of diffLines]
    have "\<forall>l \<in> set (?hdr @ g). newline \<notin> set l" by auto
    ultimately have "split_nl (join_nl (?hdr @ g)) = ?hdr @ g"
      by (intro split_join_nl) simp_all
    then show ?thesis by simp
  qed
  have "hunkPortions diffLines
      = map (\<lambda>s. drop (length ?hdr) (split_nl s)) (map content (splitIntoHunks diffLines))"
    by (simp add: hunkPortions_def hunkPortion_def comp_def)
  also have "\<dots> = map (\<lambda>g. drop (length ?hdr) (split_nl (join_nl (?hdr @ g)))) (pieces [] diffLines)"
    by (simp add: splitIntoHunks_contents [OF assms(1)] comp_def)
  also have "\<dots> = map (\<lambda>g. g) (pieces [] diffLines)"
    by (rule map_cong) (simp_all add: portion)
  finally show ?thesis by simp
qed

text \<open>
  A group that is not empty and has at most 100 lines is closed after its 101st line or
  at the next hunk header.
\<close>

lemma hd_pieces:
  "cur \<noteq> [] \<Longrightarrow> length cur \<le> 100 \<Longrightarrow>
   pieces cur ls \<noteq> []
   \<and> hd (pieces cur ls) = take 101 (cur @ takeWhile (\<lambda>l. \<not> startsWith l ''@@'') ls)"
proof (induction ls arbitrary: cur)
  case Nil
  then show ?case by simp
next
  case (Cons l ls)
  show ?case
  proof (cases "startsWith l ''@@''")
    case True
    with Cons.prems show ?thesis by simp
  next
    case False
    show ?thesis
    proof (cases "length (cur @ [l]) > 100")
      case True
      with Cons.prems have "length (cur @ [l]) = 101" by simp
      with False True show ?thesis by simp
    next
      case short: False
      then have "cur @ [l] \<noteq> []" "length (cur @ [l]) \<le> 100" by simp_all
      from Cons.IH [OF this] False short show ?thesis by simp
    qed
  qed
qed

lemma hunksFrom_first:
  "cur \<noteq> [] \<Longrightarrow>
   hunksFrom cur ls = (cur @ takeWhile (\<lambda>l. \<not> startsWith l ''@@'') ls)
                      # hunksFrom [] (dropWhile (\<lambda>l. \<not> startsWith l ''@@'') ls)"
  by (induction ls arbitrary: cur) auto

lemma concat_hunksFrom: "concat (hunksFrom cur ls) = cur @ ls"
  by (induction ls arbitrary: cur) auto

lemma hunk_start_is_piece:
  "h \<in> set (hunksFrom [] (dropWhile (\<lambda>l. \<not> startsWith l ''@@'') ls))
   \<Longrightarrow> take 101 h \<in> set (pieces cur ls)"
proof (induction ls arbitrary: cur)
  case Nil
  then show ?case by simp
next
  case (Cons l ls)
  show ?case
  proof (cases "startsWith l ''@@''")
    case False
    with Cons.prems have "h \<in> set (hunksFrom [] (dropWhile (\<lambda>l. \<not> startsWith l ''@@'') ls))"
      by simp
    then have "take 101 h \<in> set (pieces [] ls)" "take 101 h \<in> set (pieces (cur @ [l]) ls)"
      by (rule Cons.IH)+
    with False show ?thesis by simp
  next
    case True
    with Cons.prems have "h \<in> set (hunksFrom [l] ls)" by simp
    then have "h = [l] @ takeWhile (\<lambda>l. \<not> startsWith l ''@@'') ls
        \<or> h \<in> set (hunksFrom [] (dropWhile (\<lambda>l. \<not> startsWith l ''@@'') ls))"
      by (simp add: hunksFrom_first)
    then have "take 101 h \<in> set (pieces [l] ls)"
    proof
      assume "h = [l] @ takeWhile (\<lambda>l. \<not> startsWith l ''@@'') ls"
      with hd_pieces [of "[l]" ls] have "pieces [l] ls \<noteq> []" "take 101 h = hd (pieces [l] ls)"
        by simp_all
      then show ?thesis by simp
    next
      assume "h \<in> set (hunksFrom [] (dropWhile (\<lambda>l. \<not> startsWith l ''@@'') ls))"
      then show ?thesis by (rule Cons.IH)
    qed
    with True show ?thesis by simp
  qed
qed

lemma startsWith_first_line:
  assumes "startsWith diff ''@@''"
  shows "startsWith (hd (split_nl diff)) ''@@''"
proof -
  from assms have "take (Suc (Suc 0)) diff = ''@@''"
    by (simp add: startsWith_def)
  then have d: "diff = ''@@'' @ drop (Suc (Suc 0)) diff"
    by (metis append_take_drop_id)
  obtain l ls where "split_nl (drop (Suc (Suc 0)) diff) = l # ls"
    by (cases "split_nl (drop (Suc (Suc 0)) diff)") simp_all
  then have "split_nl (''@@'' @ drop (Suc (Suc 0)) diff) = (''@@'' @ l) # ls"
    by (simp add: newline_def)
  with d have "hd (split_nl diff) = ''@@'' @ l"
    by (metis list.sel(1))
  then show ?thesis
    by (simp add: startsWith_def)
qed

lemma diffHunks_of_headerless_diff:
  assumes "startsWith diff ''@@''"
  shows "concat (diffHunks (split_nl diff)) = split_nl diff"
proof -
  obtain l ls where sp: "split_nl diff = l # ls"
    by (cases "split_nl diff") simp_all
  with startsWith_first_line [OF assms] have "startsWith l ''@@''"
    by simp
  with sp have "dropWhile (\<lambda>l. \<not> startsWith l ''@@'') (split_nl diff) = split_nl diff"
    by simp
  then show ?thesis
    by (simp add: diffHunks_def concat_hunksFrom)
qed

text \<open>
  C2, as the source has it. For a diff text that begins with a hunk header, so that no
  line comes before its first hunk, the hunk-portions of the chunks, concatenated in
  order, are exactly the hunks of the diff in their order, which are all its lines. For
  every diff text a chunk is also closed after 101 lines: for every hunk, its first 101
  lines (the header and up to 100 lines after it) are the hunk-portion of one chunk, so a
  hunk of at most 101 lines is one chunk, and a longer hunk continues in the following
  chunks.
\<close>

theorem chunks_cover_diff_and_keep_short_hunks:
  "(startsWith diff ''@@'' \<longrightarrow>
      concat (hunkPortions (split_nl diff)) = concat (diffHunks (split_nl diff))
      \<and> concat (diffHunks (split_nl diff)) = split_nl diff)
   \<and> (\<forall>h \<in> set (diffHunks (split_nl diff)). take 101 h \<in> set (hunkPortions (split_nl diff)))
   \<and> (\<forall>h \<in> set (diffHunks (split_nl diff)).
         length h \<le> 101 \<longrightarrow> h \<in> set (hunkPortions (split_nl diff)))"
proof -
  have "\<forall>l \<in> set (split_nl diff). newline \<notin> set l"
    using split_nl_no_newline by blast
  then have eq: "hunkPortions (split_nl diff) = pieces [] (split_nl diff)"
    by (intro hunkPortions_eq_pieces) simp_all
  have start: "take 101 h \<in> set (hunkPortions (split_nl diff))"
    if "h \<in> set (diffHunks (split_nl diff))" for h
    using that unfolding eq diffHunks_def by (rule hunk_start_is_piece)
  have whole: "h \<in> set (hunkPortions (split_nl diff))"
    if "h \<in> set (diffHunks (split_nl diff))" "length h \<le> 101" for h
    using start [OF that(1)] that(2) by simp
  from eq have all: "concat (hunkPortions (split_nl diff)) = split_nl diff"
    by (simp add: concat_pieces)
  have "concat (hunkPortions (split_nl diff)) = concat (diffHunks (split_nl diff))
      \<and> concat (diffHunks (split_nl diff)) = split_nl diff"
    if "startsWith diff ''@@''"
    using diffHunks_of_headerless_diff [OF that] all by simp
  with start whole show ?thesis by blast
qed

theorem chunks_cover_diff_and_keep_short_hunks_witness:
  "startsWith twoHunkPatch ''@@''
   \<and> diffHunks (split_nl twoHunkPatch) = [[''@@ -1 +1 @@'', ''-a'', ''+b''], [''@@ -9 +9 @@'', ''+c'']]
   \<and> [''@@ -1 +1 @@'', ''-a'', ''+b''] \<in> set (hunkPortions (split_nl twoHunkPatch))
   \<and> [''@@ -9 +9 @@'', ''+c''] \<in> set (hunkPortions (split_nl twoHunkPatch))
   \<and> concat (hunkPortions (split_nl twoHunkPatch))
       = [''@@ -1 +1 @@'', ''-a'', ''+b'', ''@@ -9 +9 @@'', ''+c'']"
proof -
  have header: "startsWith twoHunkPatch ''@@''"
    by code_simp
  have hunks: "diffHunks (split_nl twoHunkPatch)
      = [[''@@ -1 +1 @@'', ''-a'', ''+b''], [''@@ -9 +9 @@'', ''+c'']]"
    by code_simp
  note inst = chunks_cover_diff_and_keep_short_hunks [of twoHunkPatch]
  from inst [THEN conjunct1] header hunks
  have cover: "concat (hunkPortions (split_nl twoHunkPatch))
      = [''@@ -1 +1 @@'', ''-a'', ''+b'', ''@@ -9 +9 @@'', ''+c'']"
    by simp
  from inst [THEN conjunct2, THEN conjunct2] hunks
  have "[''@@ -1 +1 @@'', ''-a'', ''+b''] \<in> set (hunkPortions (split_nl twoHunkPatch))"
    and "[''@@ -9 +9 @@'', ''+c''] \<in> set (hunkPortions (split_nl twoHunkPatch))"
    by simp_all
  with header hunks cover show ?thesis
    by simp
qed

text \<open>
  The claim C2 as it is written says that no hunk is split across a chunk boundary. The
  diff of one hunk with a header and 101 added lines comes back as two chunks: the first
  101 lines of the hunk, and its last line.
\<close>

theorem long_hunk_is_split:
  "diffHunks (split_nl bigHunkPatch) = [bigHunkLines]
   \<and> hunkPortions (split_nl bigHunkPatch) = [take 101 bigHunkLines, drop 101 bigHunkLines]
   \<and> bigHunkLines \<notin> set (hunkPortions (split_nl bigHunkPatch))"
  by code_simp

section \<open>Further properties\<close>

text \<open>
  The repair in general: whenever it cuts the string at the last complete element, the
  closing characters it appends are never the single \<open>]\<close> that closes the array there,
  because they are counted before the cut.
\<close>

lemma repairIncompleteJson_cut_never_closed_by_one_bracket:
  assumes "st = scanJson (trim s)"
    and "openBraces st > 0 \<or> openBrackets st > 1"
    and "lastCompleteObjectIndex st > - 1"
  shows "repairIncompleteJson s \<noteq> take (nat (lastCompleteObjectIndex st + 1)) (trim s) @ '']''"
proof (cases "openBraces st > 0")
  case True
  then obtain k where "nat (openBraces st) = Suc k"
    by (cases "nat (openBraces st)") auto
  with assms show ?thesis
    by (simp add: repairIncompleteJson_def Let_def)
next
  case False
  with assms(2) obtain k where "nat (openBrackets st) = Suc (Suc k)"
    by (cases "nat (openBrackets st)"; cases "nat (openBrackets st) - 1") auto
  with False assms show ?thesis
    by (simp add: repairIncompleteJson_def Let_def)
qed

text \<open>The prompt contains the diff that \<open>promptDiff\<close> computes, between fixed texts.\<close>

lemma buildPrompt_contains_promptDiff:
  "\<exists>before. buildPrompt file = before @ promptDiff file @ [newline, newline] @ ''JSON only:''"
  by (simp add: buildPrompt_def)

end
